theory Spec2Isabelle
  imports Main "HOL-Library.Word"
begin

section \<open>Object allocation phase of the JIT (objectalloc.h, objectalloc.cpp)\<close>

text \<open>
  The phase runs an escape analysis over the local variables of one method and then
  morphs every \<^verbatim>\<open>GT_ALLOCOBJ\<close> node into a helper call or into a stack allocation.
  The development follows the two source files function by function. Code of the
  compiler that lives in other files (bit vectors, node constructors, the tree walker,
  the EE interface) is either a field of the records below or a definition whose
  comment says that it is modelled from the specification.
\<close>

subsection \<open>Failures\<close>

text \<open>
  \<^verbatim>\<open>assert\<close> aborts a \<^verbatim>\<open>DEBUG\<close> build and is compiled out of a release build. A release
  build that goes on to read through a null pointer, a wrong cast or past the end of a
  stack has no defined result; the model stops there with \<open>BadAccess\<close>.
  Every function that may fail takes the build kind as its first argument.
\<close>

datatype error = AssertFailed | BadAccess

definition assert_that :: "bool \<Rightarrow> bool \<Rightarrow> error + unit" where
  "assert_that DEBUG b = (if DEBUG \<and> \<not> b then Inl AssertFailed else Inr ())"

definition bind :: "error + 'a \<Rightarrow> ('a \<Rightarrow> error + 'b) \<Rightarrow> error + 'b" where
  "bind m f = (case m of Inl e \<Rightarrow> Inl e | Inr x \<Rightarrow> f x)"

subsection \<open>Bit vectors\<close>

text \<open>
  Modelled from the spec: the bit-vector library (\<^verbatim>\<open>BitVec\<close>, \<^verbatim>\<open>BitVecOps\<close>,
  \<^verbatim>\<open>BitVecTraits\<close>) is not in the two files. A bit vector is a set of slot ids;
  \<open>UninitVal\<close> is the value of a vector that was never allocated; it has no member and
  every operation reads it as the empty set, so that adding a member to it gives the set
  of that one member. The traits carry the size (\<^verbatim>\<open>lvaCount\<close>), which bounds the
  iterator. An iterator enumerates, in increasing order, the members the vector had when
  the iterator was made (the current frontier of the closure).
\<close>

datatype BitVec = UninitVal | BitVec "nat set"

fun elems :: "BitVec \<Rightarrow> nat set" where
  "elems UninitVal = {}"
| "elems (BitVec s) = s"

definition MakeEmpty :: "nat \<Rightarrow> BitVec" where
  "MakeEmpty traits = BitVec {}"

definition MakeCopy :: "nat \<Rightarrow> BitVec \<Rightarrow> BitVec" where
  "MakeCopy traits bs = bs"

definition IsMember :: "nat \<Rightarrow> BitVec \<Rightarrow> nat \<Rightarrow> bool" where
  "IsMember traits bs i = (i \<in> elems bs)"

definition AddElemD :: "nat \<Rightarrow> BitVec \<Rightarrow> nat \<Rightarrow> BitVec" where
  "AddElemD traits bs i = BitVec (insert i (elems bs))"

definition DiffD :: "nat \<Rightarrow> BitVec \<Rightarrow> BitVec \<Rightarrow> BitVec" where
  "DiffD traits bs1 bs2 = BitVec (elems bs1 - elems bs2)"

definition UnionD :: "nat \<Rightarrow> BitVec \<Rightarrow> BitVec \<Rightarrow> BitVec" where
  "UnionD traits bs1 bs2 = BitVec (elems bs1 \<union> elems bs2)"

definition RemoveElemD :: "nat \<Rightarrow> BitVec \<Rightarrow> nat \<Rightarrow> BitVec" where
  "RemoveElemD traits bs i = BitVec (elems bs - {i})"

definition Iter :: "nat \<Rightarrow> BitVec \<Rightarrow> nat list" where
  "Iter traits bs = filter (\<lambda>i. i \<in> elems bs) [0..<traits]"

subsection \<open>ComputeReachableNodes (objectalloc.cpp, lines 149 to 178)\<close>

text \<open>
  The body of the inner \<^verbatim>\<open>while (iterator.NextElem(&lclNum))\<close> loop, for one \<open>lclNum\<close>.
  The state is the pair of \<open>pointers\<close> and \<open>reachableNodes\<close>; \<open>pointees\<close> is
  assigned afresh in every pass.
\<close>

definition reachStep :: "nat \<Rightarrow> (nat \<Rightarrow> BitVec) \<Rightarrow> nat \<Rightarrow> BitVec \<times> BitVec \<Rightarrow> BitVec \<times> BitVec" where
  "reachStep bitVecTraits adjacentNodes lclNum st =
     (case st of (pointers, reachableNodes) \<Rightarrow>
        let pointees = adjacentNodes lclNum;
            pointees = DiffD bitVecTraits pointees reachableNodes;
            pointers = UnionD bitVecTraits pointers pointees;
            reachableNodes = UnionD bitVecTraits reachableNodes pointees;
            pointers = RemoveElemD bitVecTraits pointers lclNum
        in (pointers, reachableNodes))"

text \<open>The inner loop over the elements the iterator yields.\<close>

definition reachRound :: "nat \<Rightarrow> (nat \<Rightarrow> BitVec) \<Rightarrow> nat list \<Rightarrow> BitVec \<times> BitVec \<Rightarrow> BitVec \<times> BitVec" where
  "reachRound bitVecTraits adjacentNodes ls st = fold (reachStep bitVecTraits adjacentNodes) ls st"

lemma reachRound_Nil [simp]: "reachRound n adj [] st = st"
  by (simp add: reachRound_def)

lemma reachRound_Cons [simp]:
  "reachRound n adj (l # ls) st = reachRound n adj ls (reachStep n adj l st)"
  by (simp add: reachRound_def)

lemma reachStep_simp:
  "reachStep n adj l (BitVec p, BitVec r) =
     (BitVec ((p \<union> (elems (adj l) - r)) - {l}), BitVec (r \<union> (elems (adj l) - r)))"
  by (simp add: reachStep_def DiffD_def UnionD_def RemoveElemD_def Let_def)

lemma reachStep_elems:
  "reachStep n adj l (p, r) = (p', r') \<Longrightarrow>
     elems p' = (elems p \<union> (elems (adj l) - elems r)) - {l} \<and>
     elems r' = elems r \<union> elems (adj l)"
  by (auto simp: reachStep_def DiffD_def UnionD_def RemoveElemD_def Let_def)

text \<open>What one round does to the two sets, whatever the order of the elements.\<close>

lemma reachRound_mono:
  "reachRound n adj ls (p, r) = (p', r') \<Longrightarrow> elems r \<subseteq> elems r'"
proof (induction ls arbitrary: p r)
  case Nil
  then show ?case by simp
next
  case (Cons l ls)
  obtain p1 r1 where s: "reachStep n adj l (p, r) = (p1, r1)"
    by (cases "reachStep n adj l (p, r)")
  from Cons.prems s have "reachRound n adj ls (p1, r1) = (p', r')" by simp
  then have "elems r1 \<subseteq> elems r'" by (rule Cons.IH)
  moreover from reachStep_elems [OF s] have "elems r \<subseteq> elems r1" by auto
  ultimately show ?case by blast
qed

lemma reachRound_frontier:
  "reachRound n adj ls (p, r) = (p', r') \<Longrightarrow>
     elems p' \<subseteq> (elems p - set ls) \<union> (elems r' - elems r)"
proof (induction ls arbitrary: p r)
  case Nil
  then show ?case by simp
next
  case (Cons l ls)
  obtain p1 r1 where s: "reachStep n adj l (p, r) = (p1, r1)"
    by (cases "reachStep n adj l (p, r)")
  from Cons.prems s have rest: "reachRound n adj ls (p1, r1) = (p', r')" by simp
  then have ih: "elems p' \<subseteq> (elems p1 - set ls) \<union> (elems r' - elems r1)"
    by (rule Cons.IH)
  have mono: "elems r1 \<subseteq> elems r'" using rest by (rule reachRound_mono)
  from reachStep_elems [OF s]
  have p1: "elems p1 = (elems p \<union> (elems (adj l) - elems r)) - {l}"
    and r1: "elems r1 = elems r \<union> elems (adj l)" by simp_all
  show ?case
  proof
    fix x assume "x \<in> elems p'"
    with ih have "x \<in> elems p1 - set ls \<or> x \<in> elems r' - elems r1" by blast
    then show "x \<in> (elems p - set (l # ls)) \<union> (elems r' - elems r)"
    proof
      assume a: "x \<in> elems p1 - set ls"
      show ?thesis
      proof (cases "x \<in> elems p")
        case True
        with a p1 show ?thesis by auto
      next
        case False
        with a p1 have "x \<in> elems (adj l)" "x \<notin> elems r" by auto
        with r1 mono show ?thesis by auto
      qed
    next
      assume "x \<in> elems r' - elems r1"
      with r1 show ?thesis by auto
    qed
  qed
qed

lemma Iter_set: "set (Iter n bs) = {i. i < n \<and> i \<in> elems bs}"
  by (auto simp: Iter_def)

lemma Iter_Nil: "Iter n bs = [] \<longleftrightarrow> (\<forall>i<n. i \<notin> elems bs)"
proof -
  have "Iter n bs = [] \<longleftrightarrow> set (Iter n bs) = {}" by simp
  then show ?thesis by (auto simp: Iter_set)
qed

text \<open>The number of slots below the size that are not yet reachable.\<close>

definition unreached :: "nat \<Rightarrow> BitVec \<Rightarrow> nat" where
  "unreached n r = card {i. i < n \<and> i \<notin> elems r}"

lemma unreached_mono: "elems r \<subseteq> elems r' \<Longrightarrow> unreached n r' \<le> unreached n r"
  unfolding unreached_def by (rule card_mono) auto

lemma unreached_less:
  assumes "elems r \<subseteq> elems r'" "x < n" "x \<in> elems r'" "x \<notin> elems r"
  shows "unreached n r' < unreached n r"
  unfolding unreached_def
proof (rule psubset_card_mono)
  show "finite {i. i < n \<and> i \<notin> elems r}" by simp
  show "{i. i < n \<and> i \<notin> elems r'} \<subset> {i. i < n \<and> i \<notin> elems r}"
    using assms by auto
qed

lemma reachRound_progress:
  assumes "reachRound n adj (Iter n p) (p, r) = (p', r')"
  shows "unreached n r' < unreached n r \<or> (unreached n r' = unreached n r \<and> Iter n p' = [])"
proof (cases "Iter n p' = []")
  case True
  have "unreached n r' \<le> unreached n r"
    using reachRound_mono [OF assms] by (rule unreached_mono)
  with True show ?thesis by auto
next
  case False
  then obtain x where x: "x < n" "x \<in> elems p'" by (auto simp: Iter_Nil)
  from reachRound_frontier [OF assms] x
  have "x \<in> elems p - set (Iter n p) \<or> x \<in> elems r' - elems r" by blast
  with x have "x \<in> elems r'" "x \<notin> elems r" by (auto simp: Iter_set)
  with reachRound_mono [OF assms] x have "unreached n r' < unreached n r"
    by (intro unreached_less [where x = x]) auto
  then show ?thesis by simp
qed

text \<open>
  The outer \<^verbatim>\<open>while (doOneMoreIteration)\<close> loop. A pass whose iterator yields nothing
  leaves \<open>doOneMoreIteration\<close> false and ends the loop.
\<close>

function reachLoop :: "nat \<Rightarrow> (nat \<Rightarrow> BitVec) \<Rightarrow> BitVec \<Rightarrow> BitVec \<Rightarrow> BitVec" where
  "reachLoop bitVecTraits adjacentNodes pointers reachableNodes =
     (if Iter bitVecTraits pointers = [] then reachableNodes
      else case reachRound bitVecTraits adjacentNodes (Iter bitVecTraits pointers)
                  (pointers, reachableNodes) of
             (pointers', reachableNodes') \<Rightarrow>
               reachLoop bitVecTraits adjacentNodes pointers' reachableNodes')"
  by pat_completeness auto
termination
proof (relation "measure (\<lambda>(n, adj, p, r). 2 * unreached n r + (if Iter n p = [] then 0 else 1))")
  show "wf (measure (\<lambda>(n, adj, p, r). 2 * unreached n r + (if Iter n p = [] then 0 else 1)))"
    by simp
next
  fix n :: nat and adj :: "nat \<Rightarrow> BitVec" and p r p' r'
  assume ne: "Iter n p \<noteq> []"
    and pr: "(p', r') = reachRound n adj (Iter n p) (p, r)"
  from pr have "reachRound n adj (Iter n p) (p, r) = (p', r')" by simp
  from reachRound_progress [OF this] ne
  show "((n, adj, p', r'), (n, adj, p, r))
          \<in> measure (\<lambda>(n, adj, p, r). 2 * unreached n r + (if Iter n p = [] then 0 else 1))"
    by auto
qed

definition ComputeReachableNodes :: "nat \<Rightarrow> (nat \<Rightarrow> BitVec) \<Rightarrow> BitVec \<Rightarrow> BitVec" where
  "ComputeReachableNodes bitVecTraits adjacentNodes reachableNodes =
     (let pointers = MakeCopy bitVecTraits reachableNodes
      in reachLoop bitVecTraits adjacentNodes pointers reachableNodes)"

subsection \<open>Trees, statements and blocks\<close>

text \<open>
  The node classes and enumerations are declared in gentree.h, which is not one of the
  two files; only what the phase reads or builds is kept. A node class is a constructor;
  \<open>GenTreeLeaf\<close>, \<open>GenTreeUnOp\<close> and \<open>GenTreeOp\<close> are the plain nodes without, with one
  and with two operands. Flag words are sets of flag names, since every test in the
  phase is of one named flag. The effect summary \<^verbatim>\<open>gtFlags\<close> of a node is left out: the
  phase only copies it upwards (line 270) and no decision depends on it.
\<close>

type_synonym CORINFO_CLASS_HANDLE = nat
type_synonym CORINFO_METHOD_HANDLE = nat
type_synonym CorInfoHelpFunc = nat

datatype var_types =
  TYP_UNDEF | TYP_VOID | TYP_INT | TYP_I_IMPL | TYP_REF | TYP_BYREF | TYP_STRUCT

datatype genTreeOps =
    GT_NOP | GT_LCL_VAR | GT_CNS_INT | GT_CLS_VAR | GT_IND | GT_ADDR | GT_ASG | GT_ADD
  | GT_EQ | GT_NE | GT_COMMA | GT_FIELD | GT_CALL | GT_ALLOCOBJ | GT_BLK

datatype gtCallTypes = CT_USER_FUNC | CT_HELPER | CT_INDIRECT

datatype gtCallMoreFlag = GTF_CALL_M_DELEGATE_INV | GTF_CALL_M_OTHER nat

datatype GenTree =
    GenTreeLclVar var_types nat
  | GenTreeIntCon var_types "64 word"
  | GenTreeLeaf genTreeOps var_types
  | GenTreeUnOp genTreeOps var_types GenTree
  | GenTreeOp genTreeOps var_types GenTree GenTree
  | GenTreeField var_types "GenTree option" "32 word"
  | GenTreeCall var_types gtCallTypes CORINFO_METHOD_HANDLE "gtCallMoreFlag set"
      "GenTree option" "GenTree list"
  | GenTreeAllocObj var_types CorInfoHelpFunc CORINFO_CLASS_HANDLE GenTree
  | GenTreeBlk GenTree GenTree "32 word" bool bool

text \<open>
  The fields are, in order: for a local, \<^verbatim>\<open>gtType\<close> and \<^verbatim>\<open>gtLclNum\<close>; for a constant,
  \<^verbatim>\<open>gtIconVal\<close>; for a field, \<^verbatim>\<open>gtFldObj\<close> and \<^verbatim>\<open>gtFldOffset\<close>; for a call,
  \<^verbatim>\<open>gtCallType\<close>, \<^verbatim>\<open>gtCallMethHnd\<close>, \<^verbatim>\<open>gtCallMoreFlags\<close>, \<^verbatim>\<open>gtCallObjp\<close> and the
  arguments; for an allocation, \<^verbatim>\<open>gtNewHelper\<close>, \<^verbatim>\<open>gtAllocObjClsHnd\<close> and \<^verbatim>\<open>gtOp1\<close>;
  for a block operation, the destination, the fill value, the size and the two flags
  handed to \<^verbatim>\<open>gtNewBlkOpNode\<close>.
\<close>

fun OperGet :: "GenTree \<Rightarrow> genTreeOps" where
  "OperGet (GenTreeLclVar ty n) = GT_LCL_VAR"
| "OperGet (GenTreeIntCon ty v) = GT_CNS_INT"
| "OperGet (GenTreeLeaf oper ty) = oper"
| "OperGet (GenTreeUnOp oper ty op1) = oper"
| "OperGet (GenTreeOp oper ty op1 op2) = oper"
| "OperGet (GenTreeField ty obj offs) = GT_FIELD"
| "OperGet (GenTreeCall ty ct hnd fl this args) = GT_CALL"
| "OperGet (GenTreeAllocObj ty helper cls op1) = GT_ALLOCOBJ"
| "OperGet (GenTreeBlk dst val sz vol cpy) = GT_BLK"

fun TypeGet :: "GenTree \<Rightarrow> var_types" where
  "TypeGet (GenTreeLclVar ty n) = ty"
| "TypeGet (GenTreeIntCon ty v) = ty"
| "TypeGet (GenTreeLeaf oper ty) = ty"
| "TypeGet (GenTreeUnOp oper ty op1) = ty"
| "TypeGet (GenTreeOp oper ty op1 op2) = ty"
| "TypeGet (GenTreeField ty obj offs) = ty"
| "TypeGet (GenTreeCall ty ct hnd fl this args) = ty"
| "TypeGet (GenTreeAllocObj ty helper cls op1) = ty"
| "TypeGet (GenTreeBlk dst val sz vol cpy) = TYP_VOID"

text \<open>
  \<^verbatim>\<open>gtGetOp1\<close>, \<^verbatim>\<open>gtGetOp2\<close> and \<^verbatim>\<open>AsLclVar()->GetLclNum()\<close>. On a node of another
  class the source reads a field that is not there; the model answers \<open>None\<close> and the
  caller fails with \<open>BadAccess\<close>.
\<close>

fun gtGetOp1 :: "GenTree \<Rightarrow> GenTree option" where
  "gtGetOp1 (GenTreeUnOp oper ty op1) = Some op1"
| "gtGetOp1 (GenTreeOp oper ty op1 op2) = Some op1"
| "gtGetOp1 (GenTreeAllocObj ty helper cls op1) = Some op1"
| "gtGetOp1 _ = None"

fun gtGetOp2 :: "GenTree \<Rightarrow> GenTree option" where
  "gtGetOp2 (GenTreeOp oper ty op1 op2) = Some op2"
| "gtGetOp2 _ = None"

fun GetLclNum :: "GenTree \<Rightarrow> nat option" where
  "GetLclNum (GenTreeLclVar ty n) = Some n"
| "GetLclNum _ = None"

definition deref :: "'a option \<Rightarrow> error + 'a" where
  "deref p = (case p of None \<Rightarrow> Inl BadAccess | Some x \<Rightarrow> Inr x)"

text \<open>The operands of a node, in the order in which the tree walker visits them.\<close>

fun operands :: "GenTree \<Rightarrow> GenTree list" where
  "operands (GenTreeUnOp oper ty op1) = [op1]"
| "operands (GenTreeOp oper ty op1 op2) = [op1, op2]"
| "operands (GenTreeField ty obj offs) = (case obj of None \<Rightarrow> [] | Some t \<Rightarrow> [t])"
| "operands (GenTreeCall ty ct hnd fl this args) =
     (case this of None \<Rightarrow> [] | Some t \<Rightarrow> [t]) @ args"
| "operands (GenTreeAllocObj ty helper cls op1) = [op1]"
| "operands (GenTreeBlk dst val sz vol cpy) = [dst, val]"
| "operands _ = []"

datatype GenTreeStmt = GenTreeStmt (gtStmtExpr: GenTree)

datatype bbFlag = BBF_HAS_NEWOBJ | BBF_OTHER nat

record BasicBlock =
  bbNum :: nat
  bbFlags :: "bbFlag set"
  bbTreeList :: "GenTreeStmt list"

subsection \<open>The compiler instance and the EE interface\<close>

record LclVarDsc =
  lvType :: var_types
  lvAddrExposed :: bool
  lvClassHnd :: "CORINFO_CLASS_HANDLE option"

record ICorJitInfo =
  classHasFinalizer :: "CORINFO_CLASS_HANDLE \<Rightarrow> bool"
  isValueClass :: "CORINFO_CLASS_HANDLE \<Rightarrow> bool"
  getClassSize :: "CORINFO_CLASS_HANDLE \<Rightarrow> 32 word"
  getHeapClassSize :: "CORINFO_CLASS_HANDLE \<Rightarrow> 32 word"
  getObjHeaderSize :: "32 word"

datatype optMethodFlag = OMF_HAS_NEWOBJ | OMF_HAS_OBJSTACKALLOC | OMF_OTHER nat

text \<open>
  The part of \<^verbatim>\<open>Compiler\<close> that the phase touches. \<open>fgBBs\<close> is the block list that
  \<^verbatim>\<open>foreach_block\<close> runs over. The remaining fields stand for code outside the two files
  and are left open: the helper tables, the size of a local, the statement simplifier
  \<^verbatim>\<open>fgMorphBlockStmt\<close> and the answer of \<^verbatim>\<open>TarjanStronglyConnectedComponents\<close>.
\<close>

record Compiler =
  lvaTable :: "LclVarDsc list"
  optMethodFlags :: "optMethodFlag set"
  fgBBs :: "BasicBlock list"
  compCompHnd :: ICorJitInfo
  eeGetHelperNum :: "CORINFO_METHOD_HANDLE \<Rightarrow> CorInfoHelpFunc"
  eeFindHelper :: "CorInfoHelpFunc \<Rightarrow> CORINFO_METHOD_HANDLE"
  helperIsPure :: "CorInfoHelpFunc \<Rightarrow> bool"
  lvSize :: "LclVarDsc \<Rightarrow> 32 word"
  fgMorphBlockStmt :: "GenTreeStmt \<Rightarrow> GenTreeStmt"
  IsPartOfCycle :: "nat \<Rightarrow> bool"

definition lvaCount :: "Compiler \<Rightarrow> nat" where
  "lvaCount c = length (lvaTable c)"

subsection \<open>The phase object (objectalloc.h)\<close>

text \<open>
  The data members of \<^verbatim>\<open>ObjectAllocator\<close>, with \<open>comp\<close> from its base class.
  \<^verbatim>\<open>m_HeapLocalToStackLocalMap\<close> is never read or written by the two files.
\<close>

record ObjectAllocator =
  comp :: Compiler
  m_IsObjectStackAllocationEnabled :: bool
  m_AnalysisDone :: bool
  m_IsRunningAfterMorph :: bool
  m_bitVecTraits :: nat
  m_EscapingPointers :: BitVec

definition s_StackAllocMaxSize :: "32 word" where
  "s_StackAllocMaxSize = 0x2000"

text \<open>The constructor (lines 71 to 81): the traits take the local count of that moment.\<close>

definition ObjectAllocator_new :: "Compiler \<Rightarrow> bool \<Rightarrow> ObjectAllocator" where
  "ObjectAllocator_new c isAfterMorph =
     \<lparr> comp = c,
       m_IsObjectStackAllocationEnabled = False,
       m_AnalysisDone = False,
       m_IsRunningAfterMorph = isAfterMorph,
       m_bitVecTraits = lvaCount c,
       m_EscapingPointers = UninitVal \<rparr>"

definition IsObjectStackAllocationEnabled :: "ObjectAllocator \<Rightarrow> bool" where
  "IsObjectStackAllocationEnabled this = m_IsObjectStackAllocationEnabled this"

definition EnableObjectStackAllocation :: "ObjectAllocator \<Rightarrow> ObjectAllocator" where
  "EnableObjectStackAllocation this = this\<lparr>m_IsObjectStackAllocationEnabled := True\<rparr>"

definition IsRunningAfterMorph :: "ObjectAllocator \<Rightarrow> bool" where
  "IsRunningAfterMorph this = m_IsRunningAfterMorph this"

text \<open>\<^verbatim>\<open>CanLclVarEscape\<close> (lines 116 to 120).\<close>

definition CanLclVarEscape :: "bool \<Rightarrow> ObjectAllocator \<Rightarrow> nat \<Rightarrow> error + bool" where
  "CanLclVarEscape DEBUG this lclNum =
     bind (assert_that DEBUG (m_AnalysisDone this)) (\<lambda>_.
       Inr (IsMember (m_bitVecTraits this) (m_EscapingPointers this) lclNum))"

text \<open>\<^verbatim>\<open>CanAllocateLclVarOnStack\<close> (lines 101 to 111).\<close>

definition CanAllocateLclVarOnStack ::
  "bool \<Rightarrow> ObjectAllocator \<Rightarrow> nat \<Rightarrow> CORINFO_CLASS_HANDLE \<Rightarrow> error + bool" where
  "CanAllocateLclVarOnStack DEBUG this lclNum clsHnd =
     bind (assert_that DEBUG (m_AnalysisDone this)) (\<lambda>_.
       let hasFinalizer = classHasFinalizer (compCompHnd (comp this)) clsHnd;
           isValueClass = isValueClass (compCompHnd (comp this)) clsHnd;
           classSize = (if isValueClass then getClassSize (compCompHnd (comp this)) clsHnd
                        else getHeapClassSize (compCompHnd (comp this)) clsHnd)
       in bind (CanLclVarEscape DEBUG this lclNum) (\<lambda>escapes.
            Inr (\<not> escapes \<and> \<not> hasFinalizer \<and> classSize \<le> s_StackAllocMaxSize)))"

subsection \<open>CanLclVarEscapeViaParentStack (objectalloc.cpp, lines 512 to 601)\<close>

text \<open>
  \<open>parentStack\<close> is the ancestor stack of the walker with the node itself on top:
  \<^verbatim>\<open>Index(0)\<close> is the node, \<^verbatim>\<open>Index(1)\<close> its parent, \<^verbatim>\<open>Index(2)\<close> the parent of that;
  \<^verbatim>\<open>Height()\<close> is the length of the list.

  Modelled from the spec: \<^verbatim>\<open>gtGetThisArg\<close> is not in the two files; it gives the receiver
  argument of the invocation, here the \<^verbatim>\<open>gtCallObjp\<close> of the call node. With no receiver
  the source reads through a null pointer.
\<close>

definition gtGetThisArg :: "GenTree \<Rightarrow> GenTree option" where
  "gtGetThisArg call =
     (case call of GenTreeCall ty ct hnd fl this args \<Rightarrow> this | _ \<Rightarrow> None)"

definition CanLclVarEscapeViaParentStack ::
  "GenTree list \<Rightarrow> Compiler \<Rightarrow> nat \<Rightarrow> error + bool" where
  "CanLclVarEscapeViaParentStack parentStack compiler lclNum =
     (if length parentStack > 1 then
        let parent = parentStack ! 1 in
        (case OperGet parent of
           GT_EQ \<Rightarrow> Inr False
         | GT_NE \<Rightarrow> Inr False
         | GT_IND \<Rightarrow> Inr False
         | GT_FIELD \<Rightarrow>
             (if length parentStack > 2 then
                let grandParent = parentStack ! 2
                in Inr (OperGet grandParent = GT_ADDR)
              else Inr True)
         | GT_ADD \<Rightarrow>
             (if length parentStack > 2 then
                let grandParent = parentStack ! 2
                in (case OperGet grandParent of GT_IND \<Rightarrow> Inr False | _ \<Rightarrow> Inr True)
              else Inr True)
         | GT_CALL \<Rightarrow>
             (case parent of
                GenTreeCall ty gtCallType gtCallMethHnd gtCallMoreFlags objp args \<Rightarrow>
                  if gtCallType = CT_HELPER then
                    (let helperNum = eeGetHelperNum compiler gtCallMethHnd
                     in if helperIsPure compiler helperNum then Inr False else Inr True)
                  else if gtCallType = CT_USER_FUNC then
                    (if GTF_CALL_M_DELEGATE_INV \<in> gtCallMoreFlags then
                       bind (deref (gtGetThisArg parent)) (\<lambda>thisArg.
                         if OperGet thisArg = GT_LCL_VAR then
                           bind (deref (GetLclNum thisArg)) (\<lambda>thisLclNum.
                             if thisLclNum = lclNum then Inr False else Inr True)
                         else Inr True)
                     else Inr True)
                  else Inr True
              | _ \<Rightarrow> Inl BadAccess)
         | _ \<Rightarrow> Inr True)
      else Inr True)"

subsection \<open>The callback data of the graph builder (lines 49 to 74)\<close>

text \<open>
  \<open>m_connGraphPointees\<close> is the array of pointee sets, indexed by the local number.
  \<^verbatim>\<open>IsLclVarNonStackAlloc\<close> is only read to decide whether a dump line is printed.
  None of the three member functions checks its arguments.
\<close>

record BuildConnGraphVisitorCallbackData =
  m_caller :: ObjectAllocator
  m_connGraphPointees :: "nat \<Rightarrow> BitVec"

definition MarkLclVarAsNonStackAlloc ::
  "BuildConnGraphVisitorCallbackData \<Rightarrow> nat \<Rightarrow> BuildConnGraphVisitorCallbackData" where
  "MarkLclVarAsNonStackAlloc this lclNum =
     this\<lparr>m_caller := (m_caller this)\<lparr>m_EscapingPointers :=
       AddElemD (m_bitVecTraits (m_caller this)) (m_EscapingPointers (m_caller this)) lclNum\<rparr>\<rparr>"

definition IsLclVarNonStackAlloc :: "BuildConnGraphVisitorCallbackData \<Rightarrow> nat \<Rightarrow> bool" where
  "IsLclVarNonStackAlloc this lclNum =
     IsMember (m_bitVecTraits (m_caller this)) (m_EscapingPointers (m_caller this)) lclNum"

definition SetPointerPointeeRel ::
  "BuildConnGraphVisitorCallbackData \<Rightarrow> nat \<Rightarrow> nat \<Rightarrow> BuildConnGraphVisitorCallbackData" where
  "SetPointerPointeeRel this pointerLclNum pointeeLclNum =
     this\<lparr>m_connGraphPointees := (m_connGraphPointees this)(pointerLclNum :=
       AddElemD (m_bitVecTraits (m_caller this)) (m_connGraphPointees this pointerLclNum)
         pointeeLclNum)\<rparr>"

subsection \<open>The tree walker\<close>

text \<open>
  Modelled from the spec: \<^verbatim>\<open>fgWalkTreePre\<close> and \<^verbatim>\<open>ArrayStack\<close> are not in the two files.
  The walker makes one pre-order traversal of a statement's tree and keeps the ancestor
  stack; at each node it calls the visitor with the walk data. \<^verbatim>\<open>pTree\<close> points at the
  operand slot of the parent that holds the node, so the visitor is given the number
  \<open>use\<close> of that slot (0 for \<^verbatim>\<open>gtOp1\<close>) together with the node: two nodes of one
  parent are the same node exactly when their slots are the same.
\<close>

record fgWalkData =
  compiler :: Compiler
  parent :: "GenTree option"
  parentStack :: "GenTree list"

definition Index :: "bool \<Rightarrow> GenTree list \<Rightarrow> nat \<Rightarrow> error + GenTree" where
  "Index DEBUG stack idx =
     (if idx < length stack then Inr (stack ! idx)
      else Inl (if DEBUG then AssertFailed else BadAccess))"

fun numNodes :: "GenTree \<Rightarrow> nat" where
  "numNodes (GenTreeUnOp oper ty op1) = Suc (numNodes op1)"
| "numNodes (GenTreeOp oper ty op1 op2) = Suc (numNodes op1 + numNodes op2)"
| "numNodes (GenTreeField ty obj offs) =
     Suc (case obj of None \<Rightarrow> 0 | Some t \<Rightarrow> numNodes t)"
| "numNodes (GenTreeCall ty ct hnd fl this args) =
     Suc ((case this of None \<Rightarrow> 0 | Some t \<Rightarrow> numNodes t) + sum_list (map numNodes args))"
| "numNodes (GenTreeAllocObj ty helper cls op1) = Suc (numNodes op1)"
| "numNodes (GenTreeBlk dst val sz vol cpy) = Suc (numNodes dst + numNodes val)"
| "numNodes _ = Suc 0"

lemma numNodes_operands: "numNodes t = Suc (sum_list (map numNodes (operands t)))"
  by (cases t) (auto split: option.splits)

lemma numNodes_pos: "0 < numNodes t"
  by (simp add: numNodes_operands)

function fgWalkTreePre ::
    "(nat \<Rightarrow> GenTree \<Rightarrow> fgWalkData \<Rightarrow> 's \<Rightarrow> error + 's) \<Rightarrow> Compiler \<Rightarrow> GenTree list \<Rightarrow>
       nat \<Rightarrow> GenTree \<Rightarrow> 's \<Rightarrow> error + 's"
  and fgWalkOperands ::
    "(nat \<Rightarrow> GenTree \<Rightarrow> fgWalkData \<Rightarrow> 's \<Rightarrow> error + 's) \<Rightarrow> Compiler \<Rightarrow> GenTree list \<Rightarrow>
       nat \<Rightarrow> GenTree list \<Rightarrow> 's \<Rightarrow> error + 's"
where
  "fgWalkTreePre visitor c ancestors use tree s =
     (case visitor use tree
             \<lparr> compiler = c,
               parent = (case ancestors of [] \<Rightarrow> None | p # _ \<Rightarrow> Some p),
               parentStack = tree # ancestors \<rparr> s of
        Inl e \<Rightarrow> Inl e
      | Inr s' \<Rightarrow> fgWalkOperands visitor c (tree # ancestors) 0 (operands tree) s')"
| "fgWalkOperands visitor c ancestors use [] s = Inr s"
| "fgWalkOperands visitor c ancestors use (t # ts) s =
     (case fgWalkTreePre visitor c ancestors use t s of
        Inl e \<Rightarrow> Inl e
      | Inr s' \<Rightarrow> fgWalkOperands visitor c ancestors (Suc use) ts s')"
  by pat_completeness auto
termination
  by (relation "measure (\<lambda>x. case x of
          Inl (v, c, anc, use, t, s) \<Rightarrow> 2 * numNodes t
        | Inr (v, c, anc, use, ts, s) \<Rightarrow> 2 * sum_list (map numNodes ts) + 1)")
     (auto simp: numNodes_operands)

text \<open>A loop whose body may fail: the first failure ends it.\<close>

fun forEach :: "('a \<Rightarrow> 's \<Rightarrow> error + 's) \<Rightarrow> 'a list \<Rightarrow> 's \<Rightarrow> error + 's" where
  "forEach body [] s = Inr s"
| "forEach body (x # xs) s =
     (case body x s of Inl e \<Rightarrow> Inl e | Inr s' \<Rightarrow> forEach body xs s')"

subsection \<open>BuildConnGraphVisitor (objectalloc.cpp, lines 413 to 504)\<close>

definition BuildConnGraphVisitor ::
  "bool \<Rightarrow> nat \<Rightarrow> GenTree \<Rightarrow> fgWalkData \<Rightarrow> BuildConnGraphVisitorCallbackData \<Rightarrow>
     error + BuildConnGraphVisitorCallbackData" where
  "BuildConnGraphVisitor DEBUG use tree data callbackData =
     (if OperGet tree = GT_LCL_VAR \<and> (TypeGet tree = TYP_REF \<or> TypeGet tree = TYP_I_IMPL) then
        bind (deref (GetLclNum tree)) (\<lambda>lclNum.
        bind (deref (parent data)) (\<lambda>parent.
          if OperGet parent = GT_ASG then
            bind (deref (gtGetOp1 parent)) (\<lambda>op1.
              if use \<noteq> 0 then
                bind (assert_that DEBUG (use = 1 \<and> gtGetOp2 parent \<noteq> None)) (\<lambda>_.
                  if OperGet op1 = GT_LCL_VAR then
                    bind (deref (GetLclNum op1)) (\<lambda>pointerLclNum.
                      let pointeeLclNum = lclNum
                      in Inr (SetPointerPointeeRel callbackData pointerLclNum pointeeLclNum))
                  else Inr (MarkLclVarAsNonStackAlloc callbackData lclNum))
              else Inr callbackData)
          else if OperGet parent = GT_ADD then
            bind (Index DEBUG (parentStack data) 2) (\<lambda>parent.
              if OperGet parent = GT_ASG then
                bind (deref (gtGetOp1 parent)) (\<lambda>op1.
                  if OperGet op1 = GT_LCL_VAR then
                    bind (deref (GetLclNum op1)) (\<lambda>pointerLclNum.
                      let pointeeLclNum = lclNum
                      in Inr (SetPointerPointeeRel callbackData pointerLclNum pointeeLclNum))
                  else Inr callbackData)
              else
                bind (CanLclVarEscapeViaParentStack (parentStack data) (compiler data) lclNum)
                  (\<lambda>escapes.
                     if escapes then Inr (MarkLclVarAsNonStackAlloc callbackData lclNum)
                     else Inr callbackData))
          else
            bind (CanLclVarEscapeViaParentStack (parentStack data) (compiler data) lclNum)
              (\<lambda>escapes.
                 if escapes then Inr (MarkLclVarAsNonStackAlloc callbackData lclNum)
                 else Inr callbackData)))
      else Inr callbackData)"

subsection \<open>BuildConnGraph (lines 103 to 147) and DoAnalysis (lines 83 to 101)\<close>

text \<open>The body of the loop over the locals (lines 112 to 133).\<close>

definition initPointees ::
  "nat \<Rightarrow> BuildConnGraphVisitorCallbackData \<Rightarrow> BuildConnGraphVisitorCallbackData" where
  "initPointees lclNum callbackData =
     (let this = m_caller callbackData;
          type = lvType (lvaTable (comp this) ! lclNum)
      in if type = TYP_REF \<or> type = TYP_I_IMPL \<or> type = TYP_BYREF then
           (let callbackData = callbackData\<lparr>m_connGraphPointees :=
                  (m_connGraphPointees callbackData)(lclNum := MakeEmpty (m_bitVecTraits this))\<rparr>
            in if lvAddrExposed (lvaTable (comp this) ! lclNum)
               then MarkLclVarAsNonStackAlloc callbackData lclNum
               else callbackData)
         else
           callbackData\<lparr>m_connGraphPointees :=
             (m_connGraphPointees callbackData)(lclNum := UninitVal)\<rparr>)"

text \<open>
  The fresh array holds no allocated vector. The result is the callback data, that is the
  array handed back through \<^verbatim>\<open>pConnGraphPointees\<close> and the phase object with its
  escaping set.
\<close>

definition BuildConnGraph :: "bool \<Rightarrow> ObjectAllocator \<Rightarrow> error + BuildConnGraphVisitorCallbackData" where
  "BuildConnGraph DEBUG this =
     (let callbackData = \<lparr> m_caller = this, m_connGraphPointees = (\<lambda>_. UninitVal) \<rparr>;
          callbackData = fold initPointees [0..<lvaCount (comp this)] callbackData
      in forEach (\<lambda>block.
           forEach (\<lambda>stmt. fgWalkTreePre (BuildConnGraphVisitor DEBUG) (comp this) [] 0
                             (gtStmtExpr stmt))
             (bbTreeList block))
           (fgBBs (comp this)) callbackData)"

definition DoAnalysis :: "bool \<Rightarrow> ObjectAllocator \<Rightarrow> error + ObjectAllocator" where
  "DoAnalysis DEBUG this =
     bind (assert_that DEBUG (m_IsObjectStackAllocationEnabled this)) (\<lambda>_.
     bind (assert_that DEBUG (\<not> m_AnalysisDone this)) (\<lambda>_.
     bind (if lvaCount (comp this) > 0 then
             (let this = this\<lparr>m_EscapingPointers := MakeEmpty (m_bitVecTraits this)\<rparr>
              in bind (BuildConnGraph DEBUG this) (\<lambda>callbackData.
                   let this = m_caller callbackData;
                       connGraphPointees = m_connGraphPointees callbackData
                   in Inr (this\<lparr>m_EscapingPointers :=
                             ComputeReachableNodes (m_bitVecTraits this) connGraphPointees
                               (m_EscapingPointers this)\<rparr>)))
           else Inr this)
       (\<lambda>this. Inr (this\<lparr>m_AnalysisDone := True\<rparr>))))"

subsection \<open>Node constructors and local variables of the compiler\<close>

text \<open>
  Modelled from the spec: the constructors of gentree.cpp, \<^verbatim>\<open>lvaGrabTemp\<close>,
  \<^verbatim>\<open>lvaSetStruct\<close>, \<^verbatim>\<open>fgInsertStmtBefore\<close> and \<^verbatim>\<open>fgMorphIntoHelperCall\<close> are not in the
  two files. A constructor builds the node of its name from its arguments (the field
  handle given to \<^verbatim>\<open>gtNewFieldRef\<close> is null in this phase and is not kept). A
  grabbed temporary is a fresh local at the end of the table, and \<^verbatim>\<open>lvaSetStruct\<close> lays it
  out as the given class. A statement is inserted immediately before the statement
  being morphed, that is at the end of the statements that precede it in the block.
  \<^verbatim>\<open>fgMorphIntoHelperCall\<close> turns the node into a call of the given helper with the given
  argument list.
\<close>

definition lvaGrabTemp :: "Compiler \<Rightarrow> bool \<Rightarrow> nat \<times> Compiler" where
  "lvaGrabTemp c shortLifetime =
     (lvaCount c,
      c\<lparr>lvaTable := lvaTable c @
           [\<lparr> lvType = TYP_UNDEF, lvAddrExposed = False, lvClassHnd = None \<rparr>]\<rparr>)"

definition lvaSetStruct :: "Compiler \<Rightarrow> nat \<Rightarrow> CORINFO_CLASS_HANDLE \<Rightarrow> bool \<Rightarrow> Compiler" where
  "lvaSetStruct c varNum typeHnd unsafeValueClsCheck =
     c\<lparr>lvaTable := (lvaTable c)[varNum :=
          (lvaTable c ! varNum)\<lparr>lvType := TYP_STRUCT, lvClassHnd := Some typeHnd\<rparr>]\<rparr>"

definition gtNewLclvNode :: "nat \<Rightarrow> var_types \<Rightarrow> GenTree" where
  "gtNewLclvNode lnum ty = GenTreeLclVar ty lnum"

definition gtNewIconNode :: "64 word \<Rightarrow> GenTree" where
  "gtNewIconNode v = GenTreeIntCon TYP_INT v"

definition gtNewBlkOpNode :: "GenTree \<Rightarrow> GenTree \<Rightarrow> 32 word \<Rightarrow> bool \<Rightarrow> bool \<Rightarrow> GenTree" where
  "gtNewBlkOpNode dst srcOrFillVal sz isVolatile isCopyBlock =
     GenTreeBlk dst srcOrFillVal sz isVolatile isCopyBlock"

definition gtNewOperNode :: "genTreeOps \<Rightarrow> var_types \<Rightarrow> GenTree \<Rightarrow> GenTree" where
  "gtNewOperNode oper ty op1 = GenTreeUnOp oper ty op1"

definition gtNewFieldRef :: "var_types \<Rightarrow> nat option \<Rightarrow> GenTree \<Rightarrow> 32 word \<Rightarrow> GenTree" where
  "gtNewFieldRef ty fldHnd obj offs = GenTreeField ty (Some obj) offs"

definition gtNewAssignNode :: "GenTree \<Rightarrow> GenTree \<Rightarrow> GenTree" where
  "gtNewAssignNode dst src = GenTreeOp GT_ASG (TypeGet dst) dst src"

definition gtNewStmt :: "GenTree \<Rightarrow> GenTreeStmt" where
  "gtNewStmt expr = GenTreeStmt expr"

definition gtNewArgList :: "GenTree \<Rightarrow> GenTree list" where
  "gtNewArgList arg = [arg]"

definition fgInsertStmtBefore :: "GenTreeStmt list \<Rightarrow> GenTreeStmt \<Rightarrow> GenTreeStmt list" where
  "fgInsertStmtBefore before newStmt = before @ [newStmt]"

definition fgMorphIntoHelperCall ::
  "Compiler \<Rightarrow> GenTree \<Rightarrow> CorInfoHelpFunc \<Rightarrow> GenTree list \<Rightarrow> bool \<Rightarrow> GenTree" where
  "fgMorphIntoHelperCall c tree helper args morphArgs =
     GenTreeCall (TypeGet tree) CT_HELPER (eeFindHelper c helper) {} None args"

text \<open>
  \<^verbatim>\<open>fgMorphBlockStmt\<close> simplifies a statement in place; it is called only when the phase
  runs after the global morph. For a statement that has just been inserted, inserting it
  and simplifying it in place is the same as inserting the simplified statement.
\<close>

definition morphIfAfterMorph :: "ObjectAllocator \<Rightarrow> GenTreeStmt \<Rightarrow> GenTreeStmt" where
  "morphIfAfterMorph this stmt =
     (if IsRunningAfterMorph this then fgMorphBlockStmt (comp this) stmt else stmt)"

subsection \<open>MorphAllocObjNodeIntoHelperCall (objectalloc.cpp, lines 297 to 307)\<close>

definition MorphAllocObjNodeIntoHelperCall :: "bool \<Rightarrow> ObjectAllocator \<Rightarrow> GenTree \<Rightarrow> error + GenTree" where
  "MorphAllocObjNodeIntoHelperCall DEBUG this allocObj =
     (case allocObj of
        GenTreeAllocObj ty gtNewHelper gtAllocObjClsHnd op1 \<Rightarrow>
          (let helperCall = fgMorphIntoHelperCall (comp this) allocObj gtNewHelper
                              (gtNewArgList op1) (IsRunningAfterMorph this)
           in Inr helperCall)
      | _ \<Rightarrow> Inl BadAccess)"

subsection \<open>MorphAllocObjNodeIntoStackAlloc (objectalloc.cpp, lines 323 to 411)\<close>

text \<open>
  \<open>before\<close> holds the statements of the block that precede \<open>stmt\<close>; the function
  returns it with the two new statements inserted. The node \<open>allocObj\<close> is changed in
  place into the \<^verbatim>\<open>GT_ADD\<close> node, which is the result.
\<close>

definition MorphAllocObjNodeIntoStackAlloc ::
  "bool \<Rightarrow> ObjectAllocator \<Rightarrow> GenTree \<Rightarrow> GenTreeStmt list \<Rightarrow>
     error + (GenTree \<times> ObjectAllocator \<times> GenTreeStmt list)" where
  "MorphAllocObjNodeIntoStackAlloc DEBUG this allocObj before =
     (case allocObj of
        GenTreeAllocObj ty gtNewHelper gtAllocObjClsHnd allocOp1 \<Rightarrow>
          bind (assert_that DEBUG (m_AnalysisDone this)) (\<lambda>_.
            let (lclNum, c) = lvaGrabTemp (comp this) False;
                c = lvaSetStruct c lclNum gtAllocObjClsHnd True;
                this = this\<lparr>comp := c\<rparr>;
                structSize = lvSize c (lvaTable c ! lclNum);
                tree = gtNewLclvNode lclNum TYP_STRUCT;
                tree = gtNewBlkOpNode tree (gtNewIconNode 0) structSize False False;
                newStmt = gtNewStmt tree;
                before = fgInsertStmtBefore before (morphIfAfterMorph this newStmt);
                objHeaderSize = getObjHeaderSize (compCompHnd c);
                tree = gtNewLclvNode lclNum TYP_STRUCT;
                tree = gtNewOperNode GT_ADDR TYP_BYREF tree;
                tree = gtNewFieldRef TYP_I_IMPL None tree objHeaderSize;
                tree = gtNewAssignNode tree allocOp1;
                newStmt = gtNewStmt tree;
                before = fgInsertStmtBefore before (morphIfAfterMorph this newStmt);
                tree = gtNewLclvNode lclNum TYP_STRUCT;
                tree = gtNewOperNode GT_ADDR TYP_BYREF tree;
                gtOp1 = tree;
                tree = gtNewIconNode (ucast objHeaderSize);
                gtOp2 = tree;
                allocObj = GenTreeOp GT_ADD TYP_I_IMPL gtOp1 gtOp2
            in Inr (allocObj, this, before))
      | _ \<Rightarrow> Inl BadAccess)"

subsection \<open>MorphAllocObjNodes (objectalloc.cpp, lines 186 to 283)\<close>

text \<open>\<^verbatim>\<open>AssertWhenAllocObjFoundVisitor\<close> (lines 612 to 620), compiled under \<^verbatim>\<open>DEBUG\<close> only.\<close>

definition AssertWhenAllocObjFoundVisitor ::
  "bool \<Rightarrow> nat \<Rightarrow> GenTree \<Rightarrow> fgWalkData \<Rightarrow> unit \<Rightarrow> error + unit" where
  "AssertWhenAllocObjFoundVisitor DEBUG use tree data u =
     assert_that DEBUG (OperGet tree \<noteq> GT_ALLOCOBJ)"

fun gtSetOp2 :: "GenTree \<Rightarrow> GenTree \<Rightarrow> GenTree" where
  "gtSetOp2 (GenTreeOp oper ty op1 old) op2 = GenTreeOp oper ty op1 op2"
| "gtSetOp2 t op2 = t"

fun gtAllocObjClsHnd :: "GenTree \<Rightarrow> CORINFO_CLASS_HANDLE option" where
  "gtAllocObjClsHnd (GenTreeAllocObj ty helper cls op1) = Some cls"
| "gtAllocObjClsHnd _ = None"

text \<open>Lines 212 to 222: is the statement an assignment of an allocation to a reference?\<close>

definition canonicalAllocObjFound :: "GenTree \<Rightarrow> error + bool" where
  "canonicalAllocObjFound stmtExpr =
     (if OperGet stmtExpr = GT_ASG \<and> TypeGet stmtExpr = TYP_REF then
        bind (deref (gtGetOp2 stmtExpr)) (\<lambda>op2. Inr (OperGet op2 = GT_ALLOCOBJ))
      else Inr False)"

text \<open>
  The body of the loop over the statements of one block (lines 209 to 281). The state
  is the phase object and the statements of the block that are already behind the
  loop. The allocation node is morphed in place, so the new \<open>op2\<close> is in the statement
  from then on; when the phase runs after morph the statement is then simplified, and
  the store of line 269 puts \<open>op2\<close> where it already is.
\<close>

definition morphStmt ::
  "bool \<Rightarrow> BasicBlock \<Rightarrow> bool \<Rightarrow> GenTreeStmt \<Rightarrow> ObjectAllocator \<times> GenTreeStmt list \<Rightarrow>
     error + (ObjectAllocator \<times> GenTreeStmt list)" where
  "morphStmt DEBUG block basicBlockHasNewObj stmt st =
     (case st of (this, before) \<Rightarrow>
        let stmtExpr = gtStmtExpr stmt in
        bind (canonicalAllocObjFound stmtExpr) (\<lambda>found.
          if found then
            bind (assert_that DEBUG basicBlockHasNewObj) (\<lambda>_.
            bind (deref (gtGetOp1 stmtExpr)) (\<lambda>op1.
            bind (deref (gtGetOp2 stmtExpr)) (\<lambda>op2.
            bind (assert_that DEBUG (OperGet op1 = GT_LCL_VAR)) (\<lambda>_.
            bind (assert_that DEBUG (TypeGet op1 = TYP_REF)) (\<lambda>_.
            bind (deref (GetLclNum op1)) (\<lambda>lclNum.
            bind (deref (gtAllocObjClsHnd op2)) (\<lambda>clsHnd.
            bind (if IsObjectStackAllocationEnabled this then
                    bind (CanAllocateLclVarOnStack DEBUG this lclNum clsHnd) (\<lambda>can.
                      Inr (can \<and> \<not> IsPartOfCycle (comp this) (bbNum block)))
                  else Inr False) (\<lambda>onStack.
            bind (if onStack then
                    bind (MorphAllocObjNodeIntoStackAlloc DEBUG this op2 before)
                      (\<lambda>(op2, this, before).
                         Inr (op2,
                              this\<lparr>comp := (comp this)\<lparr>optMethodFlags :=
                                insert OMF_HAS_OBJSTACKALLOC (optMethodFlags (comp this))\<rparr>\<rparr>,
                              before))
                  else
                    bind (MorphAllocObjNodeIntoHelperCall DEBUG this op2)
                      (\<lambda>op2. Inr (op2, this, before)))
              (\<lambda>(op2, this, before).
                 let stmt = GenTreeStmt (gtSetOp2 stmtExpr op2);
                     stmt = morphIfAfterMorph this stmt
                 in Inr (this, before @ [stmt]))))))))))
          else
            bind (if DEBUG then
                    fgWalkTreePre (AssertWhenAllocObjFoundVisitor DEBUG) (comp this) [] 0
                      stmtExpr ()
                  else Inr ())
              (\<lambda>_. Inr (this, before @ [stmt]))))"

text \<open>
  The body of the loop over the blocks (lines 199 to 282). A release build skips a
  block without \<^verbatim>\<open>BBF_HAS_NEWOBJ\<close>.
\<close>

definition morphBlock ::
  "bool \<Rightarrow> BasicBlock \<Rightarrow> ObjectAllocator \<times> BasicBlock list \<Rightarrow>
     error + (ObjectAllocator \<times> BasicBlock list)" where
  "morphBlock DEBUG block st =
     (case st of (this, done) \<Rightarrow>
        let basicBlockHasNewObj = (BBF_HAS_NEWOBJ \<in> bbFlags block) in
        if \<not> DEBUG \<and> \<not> basicBlockHasNewObj then Inr (this, done @ [block])
        else
          bind (forEach (morphStmt DEBUG block basicBlockHasNewObj) (bbTreeList block) (this, []))
            (\<lambda>(this, stmts). Inr (this, done @ [block\<lparr>bbTreeList := stmts\<rparr>])))"

definition MorphAllocObjNodes :: "bool \<Rightarrow> ObjectAllocator \<Rightarrow> error + ObjectAllocator" where
  "MorphAllocObjNodes DEBUG this =
     bind (forEach (morphBlock DEBUG) (fgBBs (comp this)) (this, []))
       (\<lambda>(this, blocks). Inr (this\<lparr>comp := (comp this)\<lparr>fgBBs := blocks\<rparr>\<rparr>))"

subsection \<open>DoPhase (objectalloc.cpp, lines 27 to 47)\<close>

definition DoPhase :: "bool \<Rightarrow> ObjectAllocator \<Rightarrow> error + ObjectAllocator" where
  "DoPhase DEBUG this =
     (if OMF_HAS_NEWOBJ \<notin> optMethodFlags (comp this) then Inr this
      else
        bind (if IsObjectStackAllocationEnabled this then DoAnalysis DEBUG this else Inr this)
          (MorphAllocObjNodes DEBUG))"

section \<open>Sample methods\<close>

text \<open>
  Concrete compiler instances on which the functions above are run. Class 7 has an
  instance size of exactly 8192 bytes, class 8 of 8193 bytes, class 9 has a finalizer;
  block number 2 lies on a cycle.
\<close>

definition sampleJitInfo :: ICorJitInfo where
  "sampleJitInfo =
     \<lparr> classHasFinalizer = (\<lambda>cls. cls = 9),
       isValueClass = (\<lambda>cls. cls = 5),
       getClassSize = (\<lambda>cls. 16),
       getHeapClassSize = (\<lambda>cls. if cls = 7 then 0x2000 else if cls = 8 then 0x2001 else 24),
       getObjHeaderSize = 8 \<rparr>"

definition sampleCompiler :: "LclVarDsc list \<Rightarrow> BasicBlock list \<Rightarrow> Compiler" where
  "sampleCompiler locals blocks =
     \<lparr> lvaTable = locals,
       optMethodFlags = {OMF_HAS_NEWOBJ},
       fgBBs = blocks,
       compCompHnd = sampleJitInfo,
       eeGetHelperNum = (\<lambda>hnd. hnd),
       eeFindHelper = (\<lambda>helper. helper),
       helperIsPure = (\<lambda>helper. helper = 1),
       lvSize = (\<lambda>dsc. case lvClassHnd dsc of None \<Rightarrow> 8 | Some cls \<Rightarrow> 24),
       fgMorphBlockStmt = (\<lambda>stmt. stmt),
       IsPartOfCycle = (\<lambda>n. n = 2) \<rparr>"

definition refLocal :: LclVarDsc where
  "refLocal = \<lparr> lvType = TYP_REF, lvAddrExposed = False, lvClassHnd = None \<rparr>"

text \<open>
  \<^verbatim>\<open>t = new X(); u = t; g = u;\<close> with \<open>t\<close> as local 0, \<open>u\<close> as local 1 and \<open>g\<close> a
  static field.
\<close>

definition scenarioMethod :: Compiler where
  "scenarioMethod =
     sampleCompiler [refLocal, refLocal]
       [\<lparr> bbNum = 1, bbFlags = {BBF_HAS_NEWOBJ},
          bbTreeList =
            [GenTreeStmt (GenTreeOp GT_ASG TYP_REF (GenTreeLclVar TYP_REF 0)
               (GenTreeAllocObj TYP_REF 2 3 (GenTreeIntCon TYP_I_IMPL 3))),
             GenTreeStmt (GenTreeOp GT_ASG TYP_REF (GenTreeLclVar TYP_REF 1)
               (GenTreeLclVar TYP_REF 0)),
             GenTreeStmt (GenTreeOp GT_ASG TYP_REF (GenTreeLeaf GT_CLS_VAR TYP_REF)
               (GenTreeLclVar TYP_REF 1))] \<rparr>]"

definition scenarioPhase :: ObjectAllocator where
  "scenarioPhase = EnableObjectStackAllocation (ObjectAllocator_new scenarioMethod False)"

text \<open>
  \<^verbatim>\<open>t = new X(); u = t; g = t;\<close>: here \<open>t\<close> is stored into the static field and \<open>u\<close>
  only points to \<open>t\<close>.
\<close>

definition pointerOnlyMethod :: Compiler where
  "pointerOnlyMethod =
     sampleCompiler [refLocal, refLocal]
       [\<lparr> bbNum = 1, bbFlags = {BBF_HAS_NEWOBJ},
          bbTreeList =
            [GenTreeStmt (GenTreeOp GT_ASG TYP_REF (GenTreeLclVar TYP_REF 0)
               (GenTreeAllocObj TYP_REF 2 3 (GenTreeIntCon TYP_I_IMPL 3))),
             GenTreeStmt (GenTreeOp GT_ASG TYP_REF (GenTreeLclVar TYP_REF 1)
               (GenTreeLclVar TYP_REF 0)),
             GenTreeStmt (GenTreeOp GT_ASG TYP_REF (GenTreeLeaf GT_CLS_VAR TYP_REF)
               (GenTreeLclVar TYP_REF 0))] \<rparr>]"

definition pointerOnlyPhase :: ObjectAllocator where
  "pointerOnlyPhase = EnableObjectStackAllocation (ObjectAllocator_new pointerOnlyMethod False)"

text \<open>A phase object after the analysis, with local 1 escaping.\<close>

definition sampleAnalysed :: ObjectAllocator where
  "sampleAnalysed =
     (ObjectAllocator_new (sampleCompiler [refLocal, refLocal] []) False)
       \<lparr> m_IsObjectStackAllocationEnabled := True, m_AnalysisDone := True,
         m_EscapingPointers := BitVec {1} \<rparr>"

text \<open>A chain of edges \<open>0 \<rightarrow> 1 \<rightarrow> 2\<close> and a slot 3 that nothing points to.\<close>

definition chainGraph :: "nat \<Rightarrow> BitVec" where
  "chainGraph = (\<lambda>_. UninitVal)(0 := BitVec {1}, 1 := BitVec {2}, 2 := BitVec {}, 3 := BitVec {})"

text \<open>
  \<^verbatim>\<open>*q = p;\<close> where \<open>p\<close> is local 0 and \<open>q\<close> is local 1, a native int. In the first
  method \<open>p\<close> is a managed byref, in the second an object reference.
\<close>

definition storeMethod :: "var_types \<Rightarrow> Compiler" where
  "storeMethod ty =
     sampleCompiler
       [\<lparr> lvType = ty, lvAddrExposed = False, lvClassHnd = None \<rparr>,
        \<lparr> lvType = TYP_I_IMPL, lvAddrExposed = False, lvClassHnd = None \<rparr>]
       [\<lparr> bbNum = 1, bbFlags = {},
          bbTreeList =
            [GenTreeStmt (GenTreeOp GT_ASG ty
               (GenTreeUnOp GT_IND ty (GenTreeLclVar TYP_I_IMPL 1))
               (GenTreeLclVar ty 0))] \<rparr>]"

definition storePhase :: "var_types \<Rightarrow> ObjectAllocator" where
  "storePhase ty = EnableObjectStackAllocation (ObjectAllocator_new (storeMethod ty) False)"

text \<open>An allocation of class 3 into a local, and a block that holds one such statement.\<close>

definition allocStmt :: "nat \<Rightarrow> GenTreeStmt" where
  "allocStmt lclNum =
     GenTreeStmt (GenTreeOp GT_ASG TYP_REF (GenTreeLclVar TYP_REF lclNum)
       (GenTreeAllocObj TYP_REF 2 3 (GenTreeIntCon TYP_I_IMPL 3)))"

definition flaggedBlock :: "nat \<Rightarrow> BasicBlock" where
  "flaggedBlock num = \<lparr> bbNum = num, bbFlags = {BBF_HAS_NEWOBJ}, bbTreeList = [allocStmt 0] \<rparr>"

text \<open>
  One block without \<^verbatim>\<open>BBF_HAS_NEWOBJ\<close> that nevertheless holds an allocation site.
\<close>

definition unflaggedBlock :: BasicBlock where
  "unflaggedBlock =
     \<lparr> bbNum = 3, bbFlags = {},
       bbTreeList =
         [GenTreeStmt (GenTreeOp GT_ASG TYP_REF (GenTreeLclVar TYP_REF 0)
            (GenTreeAllocObj TYP_REF 2 3 (GenTreeIntCon TYP_I_IMPL 3)))] \<rparr>"

definition unflaggedPhase :: ObjectAllocator where
  "unflaggedPhase = ObjectAllocator_new (sampleCompiler [refLocal] [unflaggedBlock]) False"

text \<open>
  \<^verbatim>\<open>i = t;\<close> with \<open>i\<close> (local 0) an integer and \<open>t\<close> (local 1) a reference: the local on
  the left has no pointee set.
\<close>

definition badStoreMethod :: Compiler where
  "badStoreMethod =
     sampleCompiler
       [\<lparr> lvType = TYP_INT, lvAddrExposed = False, lvClassHnd = None \<rparr>, refLocal]
       [\<lparr> bbNum = 1, bbFlags = {},
          bbTreeList =
            [GenTreeStmt (GenTreeOp GT_ASG TYP_REF (GenTreeLclVar TYP_INT 0)
               (GenTreeLclVar TYP_REF 1))] \<rparr>]"

definition badStorePhase :: ObjectAllocator where
  "badStorePhase =
     (EnableObjectStackAllocation (ObjectAllocator_new badStoreMethod False))
       \<lparr>m_EscapingPointers := BitVec {}\<rparr>"

section \<open>Properties of the closure\<close>

text \<open>
  The points-to edges of an adjacency array, sets closed under them, and the condition
  that every slot id in the seed and in the array is below the size of the traits.
\<close>

definition edges :: "(nat \<Rightarrow> BitVec) \<Rightarrow> (nat \<times> nat) set" where
  "edges adj = {(a, b). b \<in> elems (adj a)}"

definition closed_under :: "(nat \<Rightarrow> BitVec) \<Rightarrow> nat set \<Rightarrow> bool" where
  "closed_under adj S = (\<forall>a b. a \<in> S \<and> b \<in> elems (adj a) \<longrightarrow> b \<in> S)"

definition inRange :: "nat \<Rightarrow> (nat \<Rightarrow> BitVec) \<Rightarrow> BitVec \<Rightarrow> bool" where
  "inRange n adj roots =
     ((\<forall>i \<in> elems roots. i < n) \<and> (\<forall>a b. a < n \<and> b \<in> elems (adj a) \<longrightarrow> b < n))"

text \<open>
  The invariant of the closure computation: the reachable set holds the roots and only slots
  reachable from them, the frontier is part of it, and every reachable slot outside the
  frontier already has its pointees in the set.
\<close>

definition reachInv :: "(nat \<Rightarrow> BitVec) \<Rightarrow> nat set \<Rightarrow> BitVec \<times> BitVec \<Rightarrow> bool" where
  "reachInv adj roots st =
     (case st of (p, r) \<Rightarrow>
        roots \<subseteq> elems r \<and> elems r \<subseteq> (edges adj)\<^sup>* `` roots \<and> elems p \<subseteq> elems r \<and>
        (\<forall>a b. a \<in> elems r \<and> a \<notin> elems p \<and> b \<in> elems (adj a) \<longrightarrow> b \<in> elems r))"

section \<open>Properties of the graph builder\<close>











section \<open>Auxiliary facts\<close>

lemma bind_Inr [simp]: "bind (Inr x) f = f x"
  by (simp add: bind_def)

lemma bind_Inl [simp]: "bind (Inl e) f = Inl e"
  by (simp add: bind_def)

lemma assert_that_True [simp]: "assert_that DEBUG True = Inr ()"
  by (simp add: assert_that_def)

lemma assert_that_release [simp]: "assert_that False b = Inr ()"
  by (simp add: assert_that_def)

lemma deref_Some [simp]: "deref (Some x) = Inr x"
  by (simp add: deref_def)

lemma deref_None [simp]: "deref None = Inl BadAccess"
  by (simp add: deref_def)

lemma reachStep_inv:
  assumes "reachInv adj roots (p, r)" "l \<in> elems r"
  shows "reachInv adj roots (reachStep n adj l (p, r))"
proof -
  obtain p1 r1 where s: "reachStep n adj l (p, r) = (p1, r1)"
    by (cases "reachStep n adj l (p, r)")
  from reachStep_elems [OF s]
  have p1: "elems p1 = (elems p \<union> (elems (adj l) - elems r)) - {l}"
    and r1: "elems r1 = elems r \<union> elems (adj l)" by simp_all
  from assms have i1: "roots \<subseteq> elems r" and i2: "elems r \<subseteq> (edges adj)\<^sup>* `` roots"
    and i3: "elems p \<subseteq> elems r"
    and i4: "\<And>a b. a \<in> elems r \<Longrightarrow> a \<notin> elems p \<Longrightarrow> b \<in> elems (adj a) \<Longrightarrow> b \<in> elems r"
    by (auto simp: reachInv_def)
  have "elems (adj l) \<subseteq> (edges adj)\<^sup>* `` roots"
  proof
    fix b assume b: "b \<in> elems (adj l)"
    from assms(2) i2 obtain a where "a \<in> roots" "(a, l) \<in> (edges adj)\<^sup>*" by auto
    moreover from b have "(l, b) \<in> edges adj" by (simp add: edges_def)
    ultimately show "b \<in> (edges adj)\<^sup>* `` roots" by (auto intro: rtrancl_into_rtrancl)
  qed
  with i2 r1 have j2: "elems r1 \<subseteq> (edges adj)\<^sup>* `` roots" by auto
  have j4: "\<forall>a b. a \<in> elems r1 \<and> a \<notin> elems p1 \<and> b \<in> elems (adj a) \<longrightarrow> b \<in> elems r1"
  proof (intro allI impI, elim conjE)
    fix a b assume a: "a \<in> elems r1" "a \<notin> elems p1" "b \<in> elems (adj a)"
    show "b \<in> elems r1"
    proof (cases "a = l")
      case True
      with a r1 show ?thesis by auto
    next
      case False
      with a p1 r1 have "a \<in> elems r" "a \<notin> elems p" by auto
      with a(3) i4 r1 show ?thesis by auto
    qed
  qed
  from i1 i3 r1 p1 j2 j4 show ?thesis
    unfolding s reachInv_def by auto
qed

lemma reachRound_inv:
  "reachInv adj roots (p, r) \<Longrightarrow> set ls \<subseteq> elems r \<Longrightarrow>
     reachInv adj roots (reachRound n adj ls (p, r))"
proof (induction ls arbitrary: p r)
  case Nil
  then show ?case by simp
next
  case (Cons l ls)
  obtain p1 r1 where s: "reachStep n adj l (p, r) = (p1, r1)"
    by (cases "reachStep n adj l (p, r)")
  from Cons.prems have "reachInv adj roots (reachStep n adj l (p, r))"
    by (intro reachStep_inv) auto
  with s have a: "reachInv adj roots (p1, r1)" by simp
  from reachStep_elems [OF s] Cons.prems(2) have b: "set ls \<subseteq> elems r1" by auto
  from Cons.IH [OF a b] s show ?case by simp
qed

lemma reachLoop_inv:
  "reachInv adj roots (p, r) \<Longrightarrow>
     \<exists>p'. reachInv adj roots (p', reachLoop n adj p r) \<and> Iter n p' = []"
proof (induction n adj p r rule: reachLoop.induct)
  case (1 n adj p r)
  show ?case
  proof (cases "Iter n p = []")
    case True
    with 1 show ?thesis by auto
  next
    case False
    obtain p1 r1 where s: "reachRound n adj (Iter n p) (p, r) = (p1, r1)"
      by (cases "reachRound n adj (Iter n p) (p, r)")
    from "1.prems" have "set (Iter n p) \<subseteq> elems r" by (auto simp: Iter_set reachInv_def)
    from reachRound_inv [OF "1.prems" this, of n] s have "reachInv adj roots (p1, r1)" by simp
    from "1.IH" [OF False s [symmetric] this] False s show ?thesis by simp
  qed
qed

lemma closed_under_rtrancl:
  assumes "closed_under adj S" "roots \<subseteq> S"
  shows "(edges adj)\<^sup>* `` roots \<subseteq> S"
proof
  fix b assume "b \<in> (edges adj)\<^sup>* `` roots"
  then obtain a where a: "a \<in> roots" and ab: "(a, b) \<in> (edges adj)\<^sup>*" by auto
  from ab show "b \<in> S"
  proof (induction rule: rtrancl_induct)
    case base
    from a assms(2) show ?case by auto
  next
    case (step y z)
    with assms(1) show ?case by (auto simp: closed_under_def edges_def)
  qed
qed

lemma inRange_closure:
  assumes "inRange n adj roots"
  shows "(edges adj)\<^sup>* `` elems roots \<subseteq> {i. i < n}"
proof (rule closed_under_rtrancl)
  show "closed_under adj {i. i < n}"
    using assms by (auto simp: closed_under_def inRange_def)
  show "elems roots \<subseteq> {i. i < n}" using assms by (auto simp: inRange_def)
qed

lemma ComputeReachableNodes_closure:
  assumes "inRange n adj roots"
  shows "elems (ComputeReachableNodes n adj roots) = (edges adj)\<^sup>* `` elems roots"
proof -
  let ?R = "reachLoop n adj roots roots"
  have "reachInv adj (elems roots) (roots, roots)" by (auto simp: reachInv_def)
  from reachLoop_inv [OF this, of n] obtain p' where
    inv: "reachInv adj (elems roots) (p', ?R)" and fin: "Iter n p' = []" by blast
  from inv have sub: "elems ?R \<subseteq> (edges adj)\<^sup>* `` elems roots"
    and roots: "elems roots \<subseteq> elems ?R" and pr: "elems p' \<subseteq> elems ?R"
    and cl: "\<And>a b. a \<in> elems ?R \<Longrightarrow> a \<notin> elems p' \<Longrightarrow> b \<in> elems (adj a) \<Longrightarrow> b \<in> elems ?R"
    by (auto simp: reachInv_def)
  from pr sub inRange_closure [OF assms] have "\<forall>i \<in> elems p'. i < n" by blast
  with fin have "elems p' = {}" by (auto simp: Iter_Nil)
  with cl have "closed_under adj (elems ?R)" by (auto simp: closed_under_def)
  from closed_under_rtrancl [OF this roots] sub show ?thesis
    by (auto simp: ComputeReachableNodes_def MakeCopy_def)
qed


lemma closure_step:
  assumes "b \<in> (edges adj)\<^sup>* `` roots"
  shows "b \<in> roots \<or> (\<exists>a. a \<in> (edges adj)\<^sup>* `` roots \<and> b \<in> elems (adj a))"
proof -
  from assms obtain r where r: "r \<in> roots" and rb: "(r, b) \<in> (edges adj)\<^sup>*" by auto
  from rb show ?thesis
  proof (cases rule: rtranclE)
    case base
    with r show ?thesis by simp
  next
    case (step a)
    with r show ?thesis by (auto simp: edges_def)
  qed
qed

text \<open>Unfolding rules for running the analysis on a sample method.\<close>

lemmas graph_eval = BuildConnGraph_def lvaCount_def initPointees_def BuildConnGraphVisitor_def
  MakeEmpty_def MarkLclVarAsNonStackAlloc_def SetPointerPointeeRel_def AddElemD_def upt_rec
  Let_def CanLclVarEscapeViaParentStack_def Index_def refLocal_def

lemmas reach_eval = ComputeReachableNodes_def MakeCopy_def Iter_def reachStep_simp
  insert_commute upt_rec

lemma scenarioPhase_fields:
  "m_IsObjectStackAllocationEnabled scenarioPhase" "\<not> m_AnalysisDone scenarioPhase"
  "m_bitVecTraits scenarioPhase = 2" "lvaCount (comp scenarioPhase) = 2"
  by (simp_all add: scenarioPhase_def EnableObjectStackAllocation_def ObjectAllocator_new_def
      lvaCount_def scenarioMethod_def sampleCompiler_def)

lemma scenario_graph:
  "BuildConnGraph DEBUG (scenarioPhase\<lparr>m_EscapingPointers := MakeEmpty 2\<rparr>) =
   Inr \<lparr> m_caller = scenarioPhase\<lparr>m_EscapingPointers := BitVec {1}\<rparr>,
         m_connGraphPointees = (\<lambda>_. UninitVal)(0 := BitVec {}, 1 := BitVec {0}) \<rparr>"
  by (simp add: scenarioPhase_def scenarioMethod_def sampleCompiler_def
      EnableObjectStackAllocation_def ObjectAllocator_new_def graph_eval)

lemma scenario_closure:
  "ComputeReachableNodes 2 ((\<lambda>_. UninitVal)(0 := BitVec {}, 1 := BitVec {0::nat})) (BitVec {1}) =
     BitVec {0, 1}"
  by (simp add: reach_eval)

lemma scenario_analysis:
  "DoAnalysis DEBUG scenarioPhase =
     Inr (scenarioPhase\<lparr>m_EscapingPointers := BitVec {0, 1}, m_AnalysisDone := True\<rparr>)"
  by (simp add: DoAnalysis_def scenarioPhase_fields scenario_graph scenario_closure [simplified])

lemma pointerOnlyPhase_fields:
  "m_IsObjectStackAllocationEnabled pointerOnlyPhase" "\<not> m_AnalysisDone pointerOnlyPhase"
  "m_bitVecTraits pointerOnlyPhase = 2" "lvaCount (comp pointerOnlyPhase) = 2"
  by (simp_all add: pointerOnlyPhase_def EnableObjectStackAllocation_def ObjectAllocator_new_def
      lvaCount_def pointerOnlyMethod_def sampleCompiler_def)

lemma pointerOnly_graph:
  "BuildConnGraph DEBUG (pointerOnlyPhase\<lparr>m_EscapingPointers := MakeEmpty 2\<rparr>) =
   Inr \<lparr> m_caller = pointerOnlyPhase\<lparr>m_EscapingPointers := BitVec {0}\<rparr>,
         m_connGraphPointees = (\<lambda>_. UninitVal)(0 := BitVec {}, 1 := BitVec {0}) \<rparr>"
  by (simp add: pointerOnlyPhase_def pointerOnlyMethod_def sampleCompiler_def
      EnableObjectStackAllocation_def ObjectAllocator_new_def graph_eval)

lemma pointerOnly_closure:
  "ComputeReachableNodes 2 ((\<lambda>_. UninitVal)(0 := BitVec {}, 1 := BitVec {0::nat})) (BitVec {0}) =
     BitVec {0}"
  by (simp add: reach_eval)

lemma pointerOnly_analysis:
  "DoAnalysis DEBUG pointerOnlyPhase =
     Inr (pointerOnlyPhase\<lparr>m_EscapingPointers := BitVec {0}, m_AnalysisDone := True\<rparr>)"
  by (simp add: DoAnalysis_def pointerOnlyPhase_fields pointerOnly_graph
      pointerOnly_closure [simplified])

lemma chainGraph_inRange: "inRange 4 chainGraph (BitVec {0})"
  by (auto simp: inRange_def chainGraph_def split: if_splits)

lemma chainGraph_root: "0 \<in> elems (ComputeReachableNodes 4 chainGraph (BitVec {0}))"
  by (simp add: ComputeReachableNodes_closure [OF chainGraph_inRange])


text \<open>Running the two passes on the sample methods.\<close>

lemma storePhase_fields:
  "m_IsObjectStackAllocationEnabled (storePhase ty)" "\<not> m_AnalysisDone (storePhase ty)"
  "m_bitVecTraits (storePhase ty) = 2" "lvaCount (comp (storePhase ty)) = 2"
  by (simp_all add: storePhase_def EnableObjectStackAllocation_def ObjectAllocator_new_def
      lvaCount_def storeMethod_def sampleCompiler_def)

lemma store_graph_byref:
  "BuildConnGraph DEBUG ((storePhase TYP_BYREF)\<lparr>m_EscapingPointers := MakeEmpty 2\<rparr>) =
   Inr \<lparr> m_caller = (storePhase TYP_BYREF)\<lparr>m_EscapingPointers := BitVec {}\<rparr>,
         m_connGraphPointees = (\<lambda>_. UninitVal)(0 := BitVec {}, 1 := BitVec {}) \<rparr>"
  by (simp add: storePhase_def storeMethod_def sampleCompiler_def
      EnableObjectStackAllocation_def ObjectAllocator_new_def graph_eval)

lemma store_graph_ref:
  "BuildConnGraph DEBUG ((storePhase TYP_REF)\<lparr>m_EscapingPointers := MakeEmpty 2\<rparr>) =
   Inr \<lparr> m_caller = (storePhase TYP_REF)\<lparr>m_EscapingPointers := BitVec {0}\<rparr>,
         m_connGraphPointees = (\<lambda>_. UninitVal)(0 := BitVec {}, 1 := BitVec {}) \<rparr>"
  by (simp add: storePhase_def storeMethod_def sampleCompiler_def
      EnableObjectStackAllocation_def ObjectAllocator_new_def graph_eval)

lemma store_closure:
  "ComputeReachableNodes 2 ((\<lambda>_. UninitVal)(0 := BitVec {}, 1 := BitVec {})) (BitVec {}) = BitVec {}"
  "ComputeReachableNodes 2 ((\<lambda>_. UninitVal)(0 := BitVec {}, 1 := BitVec {})) (BitVec {0}) = BitVec {0}"
  by (simp_all add: reach_eval)

lemma CanAllocateLclVarOnStack_total:
  "m_AnalysisDone this \<Longrightarrow> \<exists>b. CanAllocateLclVarOnStack DEBUG this lclNum clsHnd = Inr b"
  by (simp add: CanAllocateLclVarOnStack_def CanLclVarEscape_def Let_def)

lemmas morph_eval = morphStmt_def canonicalAllocObjFound_def MorphAllocObjNodeIntoHelperCall_def
  MorphAllocObjNodeIntoStackAlloc_def fgMorphIntoHelperCall_def gtNewArgList_def
  lvaGrabTemp_def lvaSetStruct_def gtNewLclvNode_def gtNewIconNode_def gtNewBlkOpNode_def
  gtNewOperNode_def gtNewFieldRef_def gtNewAssignNode_def gtNewStmt_def fgInsertStmtBefore_def
  morphIfAfterMorph_def IsRunningAfterMorph_def IsObjectStackAllocationEnabled_def lvaCount_def
  Let_def

lemma morphBlock_unflagged:
  "BBF_HAS_NEWOBJ \<notin> bbFlags block \<Longrightarrow>
     morphBlock False block (this, done) = Inr (this, done @ [block])"
  by (simp add: morphBlock_def)

lemma morphBlock_appends:
  assumes "morphBlock DEBUG block (this, done) = Inr (this', out)"
  shows "\<exists>b. out = done @ [b] \<and> (\<not> DEBUG \<and> BBF_HAS_NEWOBJ \<notin> bbFlags block \<longrightarrow> b = block)"
proof (cases "\<not> DEBUG \<and> BBF_HAS_NEWOBJ \<notin> bbFlags block")
  case True
  with assms show ?thesis by (auto simp: morphBlock_def)
next
  case False
  with assms show ?thesis
    by (auto simp: morphBlock_def Let_def bind_def split: sum.splits prod.splits)
qed

lemma forEach_morphBlock:
  "forEach (morphBlock DEBUG) bs (this, done) = Inr (this', out) \<Longrightarrow>
     length out = length done + length bs \<and> take (length done) out = done \<and>
     (\<forall>i < length bs. \<not> DEBUG \<and> BBF_HAS_NEWOBJ \<notin> bbFlags (bs ! i) \<longrightarrow>
        out ! (length done + i) = bs ! i)"
proof (induction bs arbitrary: this "done")
  case Nil
  then show ?case by simp
next
  case (Cons b bs)
  from Cons.prems obtain this1 out1 where
    s: "morphBlock DEBUG b (this, done) = Inr (this1, out1)"
    and r: "forEach (morphBlock DEBUG) bs (this1, out1) = Inr (this', out)"
    by (auto split: sum.splits)
  from morphBlock_appends [OF s] obtain b' where
    o: "out1 = done @ [b']" and k: "\<not> DEBUG \<and> BBF_HAS_NEWOBJ \<notin> bbFlags b \<longrightarrow> b' = b" by blast
  from Cons.IH [OF r] have
    l: "length out = length out1 + length bs" and t: "take (length out1) out = out1"
    and u: "\<forall>i < length bs. \<not> DEBUG \<and> BBF_HAS_NEWOBJ \<notin> bbFlags (bs ! i) \<longrightarrow>
              out ! (length out1 + i) = bs ! i" by simp_all
  from l o have 1: "length out = length done + length (b # bs)" by simp
  from t o have t': "take (Suc (length done)) out = done @ [b']" by simp
  then have "take (length done) (take (Suc (length done)) out) = take (length done) (done @ [b'])"
    by simp
  then have 2: "take (length done) out = done" by (simp add: min_def)
  from t' have "take (Suc (length done)) out ! length done = (done @ [b']) ! length done"
    by simp
  then have h: "out ! length done = b'" by simp
  have 3: "\<forall>i < length (b # bs). \<not> DEBUG \<and> BBF_HAS_NEWOBJ \<notin> bbFlags ((b # bs) ! i) \<longrightarrow>
              out ! (length done + i) = (b # bs) ! i"
  proof (intro allI impI)
    fix i assume i: "i < length (b # bs)"
      and f: "\<not> DEBUG \<and> BBF_HAS_NEWOBJ \<notin> bbFlags ((b # bs) ! i)"
    show "out ! (length done + i) = (b # bs) ! i"
    proof (cases i)
      case 0
      with f k h show ?thesis by simp
    next
      case (Suc j)
      with i f u o show ?thesis by simp
    qed
  qed
  from 1 2 3 show ?case by blast
qed

lemma unflagged_release:
  "MorphAllocObjNodes False unflaggedPhase = Inr unflaggedPhase"
  by (simp add: MorphAllocObjNodes_def unflaggedPhase_def ObjectAllocator_new_def
      sampleCompiler_def unflaggedBlock_def morphBlock_def)

lemma sampleAnalysed_fields:
  "m_AnalysisDone sampleAnalysed" "IsObjectStackAllocationEnabled sampleAnalysed"
  "CanAllocateLclVarOnStack DEBUG sampleAnalysed 0 3 = Inr True"
  "CanAllocateLclVarOnStack DEBUG sampleAnalysed (Suc 0) 3 = Inr False"
  "\<not> IsPartOfCycle (comp sampleAnalysed) (bbNum (flaggedBlock (Suc 0)))"
  "IsPartOfCycle (comp sampleAnalysed) (bbNum (flaggedBlock 2))"
  by (simp_all add: sampleAnalysed_def ObjectAllocator_new_def sampleCompiler_def
      sampleJitInfo_def IsObjectStackAllocationEnabled_def CanAllocateLclVarOnStack_def
      CanLclVarEscape_def IsMember_def s_StackAllocMaxSize_def flaggedBlock_def)































lemma badStorePhase_fields:
  "m_bitVecTraits badStorePhase = 2" "lvaCount (comp badStorePhase) = 2"
  by (simp_all add: badStorePhase_def EnableObjectStackAllocation_def ObjectAllocator_new_def
      lvaCount_def badStoreMethod_def sampleCompiler_def)




section \<open>The claims\<close>

subsection \<open>C1: the escaping set is the least fixed point\<close>

text \<open>
  Claim C1. When \<open>ComputeReachableNodes\<close> has run on the connectivity graph and the
  seed set, the resulting set holds the roots, is closed under the points-to relation
  (if \<open>A\<close> is in it and the graph has an edge from \<open>A\<close> to \<open>B\<close>, then \<open>B\<close> is in it),
  and is contained in every set with these two properties. In the method
  \<^verbatim>\<open>t = new X(); u = t; g = u;\<close> the graph builder records the root \<open>u\<close> and the edge
  from \<open>u\<close> to \<open>t\<close>, and after the analysis both are in the escaping set.
\<close>

theorem ComputeReachableNodes_least_fixed_point:
  assumes "inRange n adj roots"
  shows "elems roots \<subseteq> elems (ComputeReachableNodes n adj roots) \<and>
         closed_under adj (elems (ComputeReachableNodes n adj roots)) \<and>
         (\<forall>S. elems roots \<subseteq> S \<and> closed_under adj S \<longrightarrow>
              elems (ComputeReachableNodes n adj roots) \<subseteq> S) \<and>
         BuildConnGraph DEBUG (scenarioPhase\<lparr>m_EscapingPointers := MakeEmpty 2\<rparr>) =
           Inr \<lparr> m_caller = scenarioPhase\<lparr>m_EscapingPointers := BitVec {1}\<rparr>,
                 m_connGraphPointees = (\<lambda>_. UninitVal)(0 := BitVec {}, 1 := BitVec {0}) \<rparr> \<and>
         DoAnalysis DEBUG scenarioPhase =
           Inr (scenarioPhase\<lparr>m_EscapingPointers := BitVec {0, 1}, m_AnalysisDone := True\<rparr>)"
proof -
  let ?R = "elems (ComputeReachableNodes n adj roots)"
  have eq: "?R = (edges adj)\<^sup>* `` elems roots"
    using assms by (rule ComputeReachableNodes_closure)
  have 1: "elems roots \<subseteq> ?R" unfolding eq by auto
  have 2: "closed_under adj ?R"
    unfolding eq closed_under_def
  proof (intro allI impI, elim conjE)
    fix a b assume "a \<in> (edges adj)\<^sup>* `` elems roots" "b \<in> elems (adj a)"
    then obtain r where "r \<in> elems roots" "(r, a) \<in> (edges adj)\<^sup>*" "(a, b) \<in> edges adj"
      by (auto simp: edges_def)
    then show "b \<in> (edges adj)\<^sup>* `` elems roots"
      by (auto intro: rtrancl_into_rtrancl)
  qed
  have 3: "\<forall>S. elems roots \<subseteq> S \<and> closed_under adj S \<longrightarrow> ?R \<subseteq> S"
    unfolding eq using closed_under_rtrancl by blast
  from 1 2 3 scenario_graph scenario_analysis show ?thesis by blast
qed

theorem ComputeReachableNodes_least_fixed_point_witness:
  "inRange 4 chainGraph (BitVec {0}) \<and>
   0 \<in> elems (ComputeReachableNodes 4 chainGraph (BitVec {0})) \<and>
   1 \<in> elems (ComputeReachableNodes 4 chainGraph (BitVec {0})) \<and>
   2 \<in> elems (ComputeReachableNodes 4 chainGraph (BitVec {0})) \<and>
   3 \<notin> elems (ComputeReachableNodes 4 chainGraph (BitVec {0}))"
proof -
  let ?R = "elems (ComputeReachableNodes 4 chainGraph (BitVec {0}))"
  note t = ComputeReachableNodes_least_fixed_point [OF chainGraph_inRange]
  from t have r: "0 \<in> ?R" by simp
  from t have c: "closed_under chainGraph ?R" by blast
  have e: "1 \<in> elems (chainGraph 0)" "2 \<in> elems (chainGraph 1)"
    by (simp_all add: chainGraph_def)
  from c r e(1) have r1: "1 \<in> ?R" unfolding closed_under_def by blast
  from c r1 e(2) have r2: "2 \<in> ?R" unfolding closed_under_def by blast
  have "closed_under chainGraph {0, 1, 2}"
    by (auto simp: closed_under_def chainGraph_def split: if_splits)
  with t have "?R \<subseteq> {0, 1, 2}" by simp
  then have "3 \<notin> ?R" by auto
  with chainGraph_inRange r r1 r2 show ?thesis by blast
qed

subsection \<open>C2: a use under a field access\<close>

text \<open>
  Claim C2 says that a use whose parent is a field access does not escape exactly when
  the parent of the field access is an address-of node. The source decides the other way
  round (line 547): with an address-of node above the field access the use escapes, with
  any other node above it the use does not escape.
\<close>

theorem field_parent_counterexample:
  "CanLclVarEscapeViaParentStack
     [GenTreeLclVar TYP_REF 0,
      GenTreeField TYP_INT (Some (GenTreeLclVar TYP_REF 0)) 8,
      GenTreeUnOp GT_ADDR TYP_BYREF (GenTreeField TYP_INT (Some (GenTreeLclVar TYP_REF 0)) 8)]
     (sampleCompiler [refLocal] []) 0 = Inr True \<and>
   CanLclVarEscapeViaParentStack
     [GenTreeLclVar TYP_REF 0,
      GenTreeField TYP_INT (Some (GenTreeLclVar TYP_REF 0)) 8,
      GenTreeOp GT_ASG TYP_INT (GenTreeLclVar TYP_INT 1)
        (GenTreeField TYP_INT (Some (GenTreeLclVar TYP_REF 0)) 8)]
     (sampleCompiler [refLocal] []) 0 = Inr False"
  by (simp add: CanLclVarEscapeViaParentStack_def)

text \<open>
  Claim C2, amended. For a use whose parent on the ancestor stack is a field access, the
  classifier answers "escapes" exactly when the field access is the root of the stack or
  its own parent is an address-of node; under any other parent of the field access it
  answers "does not escape".
\<close>

theorem field_parent_escapes_iff_addr:
  assumes "length stack > 1" "OperGet (stack ! 1) = GT_FIELD"
  shows "CanLclVarEscapeViaParentStack stack c lclNum =
           Inr (length stack > 2 \<longrightarrow> OperGet (stack ! 2) = GT_ADDR)"
  using assms by (simp add: CanLclVarEscapeViaParentStack_def Let_def)

theorem field_parent_escapes_iff_addr_witness:
  "length [GenTreeLclVar TYP_REF 0,
      GenTreeField TYP_INT (Some (GenTreeLclVar TYP_REF 0)) 8,
      GenTreeUnOp GT_IND TYP_INT (GenTreeField TYP_INT (Some (GenTreeLclVar TYP_REF 0)) 8)] > 1 \<and>
   CanLclVarEscapeViaParentStack
     [GenTreeLclVar TYP_REF 0,
      GenTreeField TYP_INT (Some (GenTreeLclVar TYP_REF 0)) 8,
      GenTreeUnOp GT_IND TYP_INT (GenTreeField TYP_INT (Some (GenTreeLclVar TYP_REF 0)) 8)]
     (sampleCompiler [refLocal] []) 0 = Inr False"
  using field_parent_escapes_iff_addr
    [of "[GenTreeLclVar TYP_REF 0,
      GenTreeField TYP_INT (Some (GenTreeLclVar TYP_REF 0)) 8,
      GenTreeUnOp GT_IND TYP_INT (GenTreeField TYP_INT (Some (GenTreeLclVar TYP_REF 0)) 8)]"
     "sampleCompiler [refLocal] []" 0]
  by simp

subsection \<open>C3: the direction of propagation\<close>

text \<open>
  Claim C3 says that escape propagates backwards: if \<open>B\<close> is in the escaping set and the
  graph has an edge from \<open>A\<close> to \<open>B\<close>, then \<open>A\<close> is in the set. In
  \<^verbatim>\<open>t = new X(); u = t; g = t;\<close> the local \<open>t\<close> (0) escapes and \<open>u\<close> (1) points to it,
  but \<open>u\<close> is not in the escaping set.
\<close>

theorem backward_propagation_counterexample:
  "BuildConnGraph True (pointerOnlyPhase\<lparr>m_EscapingPointers := MakeEmpty 2\<rparr>) =
     Inr \<lparr> m_caller = pointerOnlyPhase\<lparr>m_EscapingPointers := BitVec {0}\<rparr>,
           m_connGraphPointees = (\<lambda>_. UninitVal)(0 := BitVec {}, 1 := BitVec {0}) \<rparr> \<and>
   DoAnalysis True pointerOnlyPhase =
     Inr (pointerOnlyPhase\<lparr>m_EscapingPointers := BitVec {0}, m_AnalysisDone := True\<rparr>) \<and>
   0 \<in> elems (ComputeReachableNodes 2 ((\<lambda>_. UninitVal)(0 := BitVec {}, 1 := BitVec {0})) (BitVec {0})) \<and>
   0 \<in> elems (((\<lambda>_. UninitVal)(0 := BitVec {}, 1 := BitVec {0})) 1) \<and>
   1 \<notin> elems (ComputeReachableNodes 2 ((\<lambda>_. UninitVal)(0 := BitVec {}, 1 := BitVec {0})) (BitVec {0}))"
  using pointerOnly_graph [of True] pointerOnly_analysis [of True]
  by (simp add: pointerOnly_closure [simplified])

text \<open>
  Claim C3, amended. For all slots \<open>A\<close> and \<open>B\<close>: if, after the closure computation,
  \<open>A\<close> is in the escaping set and the graph has an edge from \<open>A\<close> to \<open>B\<close>, then \<open>B\<close> is
  in the escaping set (escape propagates forwards, from pointer to pointee); and a slot
  in the escaping set is a seed root or the pointee of a slot in the escaping set.
\<close>

theorem forward_propagation:
  assumes "inRange n adj roots"
  shows "(\<forall>A B. A \<in> elems (ComputeReachableNodes n adj roots) \<and> B \<in> elems (adj A) \<longrightarrow>
                B \<in> elems (ComputeReachableNodes n adj roots)) \<and>
         (\<forall>B. B \<in> elems (ComputeReachableNodes n adj roots) \<longrightarrow>
              B \<in> elems roots \<or>
              (\<exists>A. A \<in> elems (ComputeReachableNodes n adj roots) \<and> B \<in> elems (adj A)))"
proof -
  have eq: "elems (ComputeReachableNodes n adj roots) = (edges adj)\<^sup>* `` elems roots"
    using assms by (rule ComputeReachableNodes_closure)
  have "B \<in> (edges adj)\<^sup>* `` elems roots"
    if "A \<in> (edges adj)\<^sup>* `` elems roots" "B \<in> elems (adj A)" for A B
  proof -
    from that obtain r where "r \<in> elems roots" "(r, A) \<in> (edges adj)\<^sup>*" "(A, B) \<in> edges adj"
      by (auto simp: edges_def)
    then show ?thesis by (auto intro: rtrancl_into_rtrancl)
  qed
  moreover have "B \<in> elems roots \<or> (\<exists>A. A \<in> (edges adj)\<^sup>* `` elems roots \<and> B \<in> elems (adj A))"
    if "B \<in> (edges adj)\<^sup>* `` elems roots" for B
    using that by (rule closure_step)
  ultimately show ?thesis unfolding eq by blast
qed

theorem forward_propagation_witness:
  "inRange 4 chainGraph (BitVec {0}) \<and>
   1 \<in> elems (ComputeReachableNodes 4 chainGraph (BitVec {0})) \<and>
   3 \<notin> elems (ComputeReachableNodes 4 chainGraph (BitVec {0}))"
proof -
  let ?R = "elems (ComputeReachableNodes 4 chainGraph (BitVec {0}))"
  note t = forward_propagation [OF chainGraph_inRange]
  have "1 \<in> elems (chainGraph 0)" by (simp add: chainGraph_def)
  with t chainGraph_root have a: "1 \<in> ?R" by blast
  have "\<And>A. 3 \<notin> elems (chainGraph A)" by (simp add: chainGraph_def)
  with t have "3 \<notin> ?R" by fastforce
  with a chainGraph_inRange show ?thesis by blast
qed

subsection \<open>C6: eligibility for the stack\<close>

text \<open>
  Claim C6. After the analysis is complete, a slot may be allocated on the stack if and
  only if it is not in the escaping set, the class has no finalizer, and the instance
  size is at most 8192 bytes; a size of exactly 8192 is eligible and a size of 8193 is
  not.
\<close>

theorem CanAllocateLclVarOnStack_eligible:
  assumes "m_AnalysisDone this"
  shows "let hasFinalizer = classHasFinalizer (compCompHnd (comp this)) clsHnd;
             classSize = (if isValueClass (compCompHnd (comp this)) clsHnd
                          then getClassSize (compCompHnd (comp this)) clsHnd
                          else getHeapClassSize (compCompHnd (comp this)) clsHnd);
             escapes = (lclNum \<in> elems (m_EscapingPointers this))
         in CanAllocateLclVarOnStack DEBUG this lclNum clsHnd =
              Inr (\<not> escapes \<and> \<not> hasFinalizer \<and> unat classSize \<le> 8192) \<and>
            (\<not> escapes \<and> \<not> hasFinalizer \<and> unat classSize = 8192 \<longrightarrow>
               CanAllocateLclVarOnStack DEBUG this lclNum clsHnd = Inr True) \<and>
            (unat classSize = 8193 \<longrightarrow>
               CanAllocateLclVarOnStack DEBUG this lclNum clsHnd = Inr False)"
proof -
  have le: "\<And>w :: 32 word. (w \<le> s_StackAllocMaxSize) = (unat w \<le> 8192)"
    by (simp add: s_StackAllocMaxSize_def word_le_nat_alt)
  from assms show ?thesis
    by (simp add: CanAllocateLclVarOnStack_def CanLclVarEscape_def IsMember_def Let_def le)
qed

theorem CanAllocateLclVarOnStack_eligible_witness:
  "m_AnalysisDone sampleAnalysed \<and>
   CanAllocateLclVarOnStack True sampleAnalysed 0 7 = Inr True \<and>
   CanAllocateLclVarOnStack True sampleAnalysed 0 8 = Inr False \<and>
   CanAllocateLclVarOnStack True sampleAnalysed 1 7 = Inr False \<and>
   CanAllocateLclVarOnStack True sampleAnalysed 0 9 = Inr False"
proof -
  have d: "m_AnalysisDone sampleAnalysed" by (simp add: sampleAnalysed_def)
  show ?thesis
    using d CanAllocateLclVarOnStack_eligible [OF d, of 7 0 True]
      CanAllocateLclVarOnStack_eligible [OF d, of 8 0 True]
      CanAllocateLclVarOnStack_eligible [OF d, of 7 1 True]
      CanAllocateLclVarOnStack_eligible [OF d, of 9 0 True]
    by (simp add: sampleAnalysed_def ObjectAllocator_new_def sampleCompiler_def
        sampleJitInfo_def Let_def)
qed

subsection \<open>C9: the receiver of a delegate invocation\<close>

text \<open>
  Claim C9. For a use of a local whose parent is a user call flagged as a delegate
  invocation, the classifier answers "does not escape" whenever the receiver of the call
  is a local-variable node with the same local number, whichever operand of the call the
  classified use is.
\<close>

theorem delegate_receiver_no_escape:
  assumes "length stack > 1"
    and "stack ! 1 = GenTreeCall ty CT_USER_FUNC hnd fl (Some (GenTreeLclVar ty' lclNum)) args"
    and "GTF_CALL_M_DELEGATE_INV \<in> fl"
  shows "CanLclVarEscapeViaParentStack stack c lclNum = Inr False"
  using assms by (simp add: CanLclVarEscapeViaParentStack_def Let_def gtGetThisArg_def)

theorem delegate_receiver_no_escape_witness:
  "length [GenTreeLclVar TYP_REF 3,
           GenTreeCall TYP_VOID CT_USER_FUNC 4 {GTF_CALL_M_DELEGATE_INV}
             (Some (GenTreeLclVar TYP_REF 3)) [GenTreeLclVar TYP_REF 3]] > 1 \<and>
   GTF_CALL_M_DELEGATE_INV \<in> {GTF_CALL_M_DELEGATE_INV} \<and>
   operands (GenTreeCall TYP_VOID CT_USER_FUNC 4 {GTF_CALL_M_DELEGATE_INV}
               (Some (GenTreeLclVar TYP_REF 3)) [GenTreeLclVar TYP_REF 3]) ! 1 =
     GenTreeLclVar TYP_REF 3 \<and>
   CanLclVarEscapeViaParentStack
     [GenTreeLclVar TYP_REF 3,
      GenTreeCall TYP_VOID CT_USER_FUNC 4 {GTF_CALL_M_DELEGATE_INV}
        (Some (GenTreeLclVar TYP_REF 3)) [GenTreeLclVar TYP_REF 3]]
     (sampleCompiler [refLocal] []) 3 = Inr False"
  using delegate_receiver_no_escape
    [of "[GenTreeLclVar TYP_REF 3,
          GenTreeCall TYP_VOID CT_USER_FUNC 4 {GTF_CALL_M_DELEGATE_INV}
            (Some (GenTreeLclVar TYP_REF 3)) [GenTreeLclVar TYP_REF 3]]"
        TYP_VOID 4 "{GTF_CALL_M_DELEGATE_INV}" TYP_REF 3 "[GenTreeLclVar TYP_REF 3]"
        "sampleCompiler [refLocal] []"]
  by simp

subsection \<open>C4: the choice between stack and heap\<close>

text \<open>
  Claim C4 says that every statement in the canonical shape is rewritten, to the stack
  sequence or to the helper call. A release build skips a block that does not carry
  \<^verbatim>\<open>BBF_HAS_NEWOBJ\<close> (lines 200 to 205), so an allocation site in such a block stays as
  it is; a debug build stops at the assertion of line 226.
\<close>

theorem canonical_site_unflagged_counterexample:
  "canonicalAllocObjFound (gtStmtExpr (bbTreeList unflaggedBlock ! 0)) = Inr True \<and>
   MorphAllocObjNodes False unflaggedPhase = Inr unflaggedPhase \<and>
   DoPhase False unflaggedPhase = Inr unflaggedPhase \<and>
   bbTreeList (fgBBs (comp unflaggedPhase) ! 0) =
     [GenTreeStmt (GenTreeOp GT_ASG TYP_REF (GenTreeLclVar TYP_REF 0)
        (GenTreeAllocObj TYP_REF 2 3 (GenTreeIntCon TYP_I_IMPL 3)))] \<and>
   MorphAllocObjNodes True unflaggedPhase = Inl AssertFailed"
proof -
  have 1: "canonicalAllocObjFound (gtStmtExpr (bbTreeList unflaggedBlock ! 0)) = Inr True"
    by (simp add: canonicalAllocObjFound_def unflaggedBlock_def)
  have 2: "DoPhase False unflaggedPhase = Inr unflaggedPhase"
    using unflagged_release
    by (simp add: DoPhase_def IsObjectStackAllocationEnabled_def unflaggedPhase_def
        ObjectAllocator_new_def)
  have 3: "bbTreeList (fgBBs (comp unflaggedPhase) ! 0) =
     [GenTreeStmt (GenTreeOp GT_ASG TYP_REF (GenTreeLclVar TYP_REF 0)
        (GenTreeAllocObj TYP_REF 2 3 (GenTreeIntCon TYP_I_IMPL 3)))]"
    by (simp add: unflaggedPhase_def ObjectAllocator_new_def sampleCompiler_def unflaggedBlock_def)
  have 4: "MorphAllocObjNodes True unflaggedPhase = Inl AssertFailed"
    by (simp add: MorphAllocObjNodes_def unflaggedPhase_def ObjectAllocator_new_def
        sampleCompiler_def unflaggedBlock_def morphBlock_def morph_eval assert_that_def)
  from 1 unflagged_release 2 3 4 show ?thesis by blast
qed


text \<open>
  Claim C4, amended. For every statement in the canonical shape in a block that carries
  the has-new-object flag (the analysis being complete whenever stack allocation is
  enabled), the rewriter produces the stack-allocation sequence exactly when stack
  allocation is enabled, the destination slot is eligible and the block is not part of a
  cycle; in every other case, whatever the escape, size or finalizer status, it replaces
  the allocation by a call of the allocation helper whose only argument is the class
  handle node.
\<close>

theorem canonical_site_choice:
  assumes "stmt = GenTreeStmt (GenTreeOp GT_ASG TYP_REF (GenTreeLclVar TYP_REF lclNum)
                    (GenTreeAllocObj ty helper clsHnd clsNode))"
    and "IsObjectStackAllocationEnabled this \<longrightarrow> m_AnalysisDone this"
    and "basicBlockHasNewObj"
  shows "morphStmt DEBUG block basicBlockHasNewObj stmt (this, before) =
     (if IsObjectStackAllocationEnabled this \<and>
         CanAllocateLclVarOnStack DEBUG this lclNum clsHnd = Inr True \<and>
         \<not> IsPartOfCycle (comp this) (bbNum block)
      then
        (case MorphAllocObjNodeIntoStackAlloc DEBUG this
                (GenTreeAllocObj ty helper clsHnd clsNode) before of
           Inl e \<Rightarrow> Inl e
         | Inr (op2, this', before') \<Rightarrow>
             Inr (this'\<lparr>comp := (comp this')\<lparr>optMethodFlags :=
                    insert OMF_HAS_OBJSTACKALLOC (optMethodFlags (comp this'))\<rparr>\<rparr>,
                  before' @ [morphIfAfterMorph this
                     (GenTreeStmt (GenTreeOp GT_ASG TYP_REF (GenTreeLclVar TYP_REF lclNum) op2))]))
      else
        Inr (this,
             before @ [morphIfAfterMorph this
                (GenTreeStmt (GenTreeOp GT_ASG TYP_REF (GenTreeLclVar TYP_REF lclNum)
                   (GenTreeCall ty CT_HELPER (eeFindHelper (comp this) helper) {} None
                      [clsNode])))]))"
proof (cases "IsObjectStackAllocationEnabled this")
  case False
  with assms show ?thesis by (simp add: morph_eval)
next
  case True
  with assms have d: "m_AnalysisDone this" by simp
  from CanAllocateLclVarOnStack_total [OF d] obtain b where
    b: "CanAllocateLclVarOnStack DEBUG this lclNum clsHnd = Inr b" by blast
  from True have e: "m_IsObjectStackAllocationEnabled this"
    by (simp add: IsObjectStackAllocationEnabled_def)
  show ?thesis
  proof (cases "b \<and> \<not> IsPartOfCycle (comp this) (bbNum block)")
    case True
    with assms(1,3) d e b show ?thesis
      by (simp add: morph_eval)
  next
    case False
    with assms(1,3) d e b show ?thesis
      by (auto simp add: morph_eval)
  qed
qed

theorem canonical_site_choice_witness:
  "m_AnalysisDone sampleAnalysed \<and>
   morphStmt True (flaggedBlock 1) True (allocStmt 1) (sampleAnalysed, []) =
     Inr (sampleAnalysed,
          [GenTreeStmt (GenTreeOp GT_ASG TYP_REF (GenTreeLclVar TYP_REF 1)
             (GenTreeCall TYP_REF CT_HELPER 2 {} None [GenTreeIntCon TYP_I_IMPL 3]))]) \<and>
   morphStmt True (flaggedBlock 2) True (allocStmt 0) (sampleAnalysed, []) =
     Inr (sampleAnalysed,
          [GenTreeStmt (GenTreeOp GT_ASG TYP_REF (GenTreeLclVar TYP_REF 0)
             (GenTreeCall TYP_REF CT_HELPER 2 {} None [GenTreeIntCon TYP_I_IMPL 3]))])"
proof -
  have m: "\<And>stmt. morphIfAfterMorph sampleAnalysed stmt = stmt"
    by (simp add: morphIfAfterMorph_def sampleAnalysed_def ObjectAllocator_new_def
        sampleCompiler_def)
  have h: "eeFindHelper (comp sampleAnalysed) 2 = 2"
    by (simp add: sampleAnalysed_def ObjectAllocator_new_def sampleCompiler_def)
  from canonical_site_choice
         [where stmt = "allocStmt 1" and lclNum = 1 and ty = TYP_REF and helper = 2
            and clsHnd = 3 and clsNode = "GenTreeIntCon TYP_I_IMPL 3" and this = sampleAnalysed
            and basicBlockHasNewObj = True and DEBUG = True and block = "flaggedBlock 1"
            and before = "[]"]
       canonical_site_choice
         [where stmt = "allocStmt 0" and lclNum = 0 and ty = TYP_REF and helper = 2
            and clsHnd = 3 and clsNode = "GenTreeIntCon TYP_I_IMPL 3" and this = sampleAnalysed
            and basicBlockHasNewObj = True and DEBUG = True and block = "flaggedBlock 2"
            and before = "[]"]
  show ?thesis
    by (simp add: allocStmt_def sampleAnalysed_fields m h)
qed

subsection \<open>C5: the stack-allocation sequence\<close>

text \<open>
  Claim C5. For a site rewritten to a stack allocation: a fresh local is laid out as the
  class; a statement that zero-fills the whole local and then a statement that writes the
  class handle at the header offset are inserted, in this order, immediately before the
  original statement; the allocation is replaced by the address of the new local plus
  the size of the object header; the assignment and its destination are otherwise
  unchanged. When the phase runs after morph each of the three statements is handed to
  the statement simplifier.
\<close>

theorem stack_alloc_sequence:
  assumes "stmt = GenTreeStmt (GenTreeOp GT_ASG TYP_REF (GenTreeLclVar TYP_REF lclNum)
                    (GenTreeAllocObj ty helper clsHnd clsNode))"
    and "m_AnalysisDone this"
    and "IsObjectStackAllocationEnabled this"
    and "CanAllocateLclVarOnStack DEBUG this lclNum clsHnd = Inr True"
    and "\<not> IsPartOfCycle (comp this) (bbNum block)"
    and "basicBlockHasNewObj"
  shows "morphStmt DEBUG block basicBlockHasNewObj stmt (this, before) =
     (let newLcl = lvaCount (comp this);
          newDsc = \<lparr> lvType = TYP_STRUCT, lvAddrExposed = False, lvClassHnd = Some clsHnd \<rparr>;
          objHeaderSize = getObjHeaderSize (compCompHnd (comp this));
          zeroFill = GenTreeStmt (GenTreeBlk (GenTreeLclVar TYP_STRUCT newLcl)
                       (GenTreeIntCon TYP_INT 0) (lvSize (comp this) newDsc) False False);
          setType = GenTreeStmt (GenTreeOp GT_ASG TYP_I_IMPL
                       (GenTreeField TYP_I_IMPL
                          (Some (GenTreeUnOp GT_ADDR TYP_BYREF (GenTreeLclVar TYP_STRUCT newLcl)))
                          objHeaderSize)
                       clsNode);
          assign = GenTreeStmt (GenTreeOp GT_ASG TYP_REF (GenTreeLclVar TYP_REF lclNum)
                       (GenTreeOp GT_ADD TYP_I_IMPL
                          (GenTreeUnOp GT_ADDR TYP_BYREF (GenTreeLclVar TYP_STRUCT newLcl))
                          (GenTreeIntCon TYP_INT (ucast objHeaderSize))))
      in Inr (this\<lparr>comp := (comp this)
                     \<lparr>lvaTable := lvaTable (comp this) @ [newDsc],
                      optMethodFlags := insert OMF_HAS_OBJSTACKALLOC (optMethodFlags (comp this))\<rparr>\<rparr>,
              before @ [morphIfAfterMorph this zeroFill, morphIfAfterMorph this setType,
                        morphIfAfterMorph this assign]))"
  using assms by (simp add: morph_eval)


theorem stack_alloc_sequence_witness:
  "m_AnalysisDone sampleAnalysed \<and>
   CanAllocateLclVarOnStack True sampleAnalysed 0 3 = Inr True \<and>
   morphStmt True (flaggedBlock 1) True (allocStmt 0) (sampleAnalysed, []) =
     Inr (sampleAnalysed\<lparr>comp := (comp sampleAnalysed)
            \<lparr>lvaTable := [refLocal, refLocal,
                 \<lparr> lvType = TYP_STRUCT, lvAddrExposed = False, lvClassHnd = Some 3 \<rparr>],
             optMethodFlags := {OMF_HAS_OBJSTACKALLOC, OMF_HAS_NEWOBJ}\<rparr>\<rparr>,
          [GenTreeStmt (GenTreeBlk (GenTreeLclVar TYP_STRUCT 2) (GenTreeIntCon TYP_INT 0) 24
             False False),
           GenTreeStmt (GenTreeOp GT_ASG TYP_I_IMPL
             (GenTreeField TYP_I_IMPL
                (Some (GenTreeUnOp GT_ADDR TYP_BYREF (GenTreeLclVar TYP_STRUCT 2))) 8)
             (GenTreeIntCon TYP_I_IMPL 3)),
           GenTreeStmt (GenTreeOp GT_ASG TYP_REF (GenTreeLclVar TYP_REF 0)
             (GenTreeOp GT_ADD TYP_I_IMPL
                (GenTreeUnOp GT_ADDR TYP_BYREF (GenTreeLclVar TYP_STRUCT 2))
                (GenTreeIntCon TYP_INT 8)))])"
proof -
  have m: "\<And>stmt. morphIfAfterMorph sampleAnalysed stmt = stmt"
    by (simp add: morphIfAfterMorph_def sampleAnalysed_def ObjectAllocator_new_def
        sampleCompiler_def)
  have c: "lvaTable (comp sampleAnalysed) = [refLocal, refLocal]"
    "optMethodFlags (comp sampleAnalysed) = {OMF_HAS_NEWOBJ}"
    "getObjHeaderSize (compCompHnd (comp sampleAnalysed)) = 8"
    "lvSize (comp sampleAnalysed)
       \<lparr> lvType = TYP_STRUCT, lvAddrExposed = False, lvClassHnd = Some 3 \<rparr> = 24"
    by (simp_all add: sampleAnalysed_def ObjectAllocator_new_def sampleCompiler_def
        sampleJitInfo_def)
  from stack_alloc_sequence
         [where stmt = "allocStmt 0" and lclNum = 0 and ty = TYP_REF and helper = 2
            and clsHnd = 3 and clsNode = "GenTreeIntCon TYP_I_IMPL 3" and this = sampleAnalysed
            and basicBlockHasNewObj = True and DEBUG = True and block = "flaggedBlock 1"
            and before = "[]"]
  show ?thesis
    by (simp add: allocStmt_def sampleAnalysed_fields m c
        lvaCount_def Let_def)
qed

subsection \<open>C7: which local-variable nodes the graph builder looks at\<close>

text \<open>
  Claim C7 says that the classifier is applied at every leaf reference to a slot of
  pointer kind, a managed byref included. The loop over the locals gives a byref local
  its pointee set (line 116), but the visitor only looks at nodes of type \<^verbatim>\<open>TYP_REF\<close> and
  \<^verbatim>\<open>TYP_I_IMPL\<close> (line 418). In \<^verbatim>\<open>*q = p;\<close> a byref \<open>p\<close> is therefore not recorded as
  escaping, in either build, whereas a reference \<open>p\<close> in the same statement is.
\<close>

theorem byref_use_not_recorded:
  "BuildConnGraphVisitor True 1 (GenTreeLclVar TYP_BYREF 0)
     \<lparr> compiler = storeMethod TYP_BYREF,
       parent = Some (GenTreeOp GT_ASG TYP_BYREF
                  (GenTreeUnOp GT_IND TYP_BYREF (GenTreeLclVar TYP_I_IMPL 1))
                  (GenTreeLclVar TYP_BYREF 0)),
       parentStack = [GenTreeLclVar TYP_BYREF 0,
                      GenTreeOp GT_ASG TYP_BYREF
                        (GenTreeUnOp GT_IND TYP_BYREF (GenTreeLclVar TYP_I_IMPL 1))
                        (GenTreeLclVar TYP_BYREF 0)] \<rparr>
     \<lparr> m_caller = (storePhase TYP_BYREF)\<lparr>m_EscapingPointers := BitVec {}\<rparr>,
       m_connGraphPointees = (\<lambda>_. UninitVal)(0 := BitVec {}, 1 := BitVec {}) \<rparr> =
   Inr \<lparr> m_caller = (storePhase TYP_BYREF)\<lparr>m_EscapingPointers := BitVec {}\<rparr>,
         m_connGraphPointees = (\<lambda>_. UninitVal)(0 := BitVec {}, 1 := BitVec {}) \<rparr> \<and>
   DoAnalysis True (storePhase TYP_BYREF) =
     Inr ((storePhase TYP_BYREF)\<lparr>m_EscapingPointers := BitVec {}, m_AnalysisDone := True\<rparr>) \<and>
   DoAnalysis False (storePhase TYP_BYREF) =
     Inr ((storePhase TYP_BYREF)\<lparr>m_EscapingPointers := BitVec {}, m_AnalysisDone := True\<rparr>) \<and>
   DoAnalysis True (storePhase TYP_REF) =
     Inr ((storePhase TYP_REF)\<lparr>m_EscapingPointers := BitVec {0}, m_AnalysisDone := True\<rparr>)"
  by (simp add: DoAnalysis_def storePhase_fields store_graph_byref store_graph_ref
      store_closure [simplified] BuildConnGraphVisitor_def)

subsection \<open>C10: blocks without the has-new-object flag\<close>

text \<open>
  Claim C10. In a release build the rewriting pass leaves every block without
  \<^verbatim>\<open>BBF_HAS_NEWOBJ\<close> exactly as it is, so an allocation site in such a block is rewritten
  neither to the stack nor to the heap.
\<close>

theorem unflagged_block_untouched:
  "(BBF_HAS_NEWOBJ \<notin> bbFlags block \<longrightarrow>
      morphBlock False block (this, done) = Inr (this, done @ [block])) \<and>
   (MorphAllocObjNodes False this = Inr this' \<longrightarrow>
      length (fgBBs (comp this')) = length (fgBBs (comp this)) \<and>
      (\<forall>i < length (fgBBs (comp this)).
         BBF_HAS_NEWOBJ \<notin> bbFlags (fgBBs (comp this) ! i) \<longrightarrow>
           fgBBs (comp this') ! i = fgBBs (comp this) ! i))"
proof (intro conjI impI)
  assume "BBF_HAS_NEWOBJ \<notin> bbFlags block"
  then show "morphBlock False block (this, done) = Inr (this, done @ [block])"
    by (rule morphBlock_unflagged)
next
  assume a: "MorphAllocObjNodes False this = Inr this'"
  then obtain this1 out where
    f: "forEach (morphBlock False) (fgBBs (comp this)) (this, []) = Inr (this1, out)"
    and e: "this' = this1\<lparr>comp := (comp this1)\<lparr>fgBBs := out\<rparr>\<rparr>"
    by (auto simp: MorphAllocObjNodes_def bind_def split: sum.splits prod.splits)
  from forEach_morphBlock [OF f] e
  show "length (fgBBs (comp this')) = length (fgBBs (comp this))"
    and "\<forall>i < length (fgBBs (comp this)).
           BBF_HAS_NEWOBJ \<notin> bbFlags (fgBBs (comp this) ! i) \<longrightarrow>
             fgBBs (comp this') ! i = fgBBs (comp this) ! i"
    by simp_all
qed

theorem unflagged_block_untouched_witness:
  "BBF_HAS_NEWOBJ \<notin> bbFlags unflaggedBlock \<and>
   morphBlock False unflaggedBlock (unflaggedPhase, []) = Inr (unflaggedPhase, [unflaggedBlock]) \<and>
   MorphAllocObjNodes False unflaggedPhase = Inr unflaggedPhase \<and>
   fgBBs (comp unflaggedPhase) ! 0 = unflaggedBlock"
proof -
  have f: "BBF_HAS_NEWOBJ \<notin> bbFlags unflaggedBlock" by (simp add: unflaggedBlock_def)
  have l: "fgBBs (comp unflaggedPhase) = [unflaggedBlock]"
    by (simp add: unflaggedPhase_def ObjectAllocator_new_def sampleCompiler_def)
  from unflagged_block_untouched [of unflaggedBlock unflaggedPhase "[]" unflaggedPhase]
    f unflagged_release l
  show ?thesis by simp
qed

subsection \<open>C8: the kinds of the slots joined by an edge\<close>




end
